theory Spec2Isabelle
  imports Complex_Main "HOL-Library.Char_ord" "HOL-Library.List_Lexorder"
begin

section \<open>The video subtitle pipeline\<close>

text \<open>
  A shallow embedding of \<^verbatim>\<open>video_subtitle_pipeline.py\<close>: the timestamp formatter, the
  derived file names, the two subtitle writers, the translation loop and the orchestration
  in \<^verbatim>\<open>main\<close>.

  Conventions of the model.
  \<^item> A Python float is a real number. Every finite double is a rational. On a
    non-negative double \<^verbatim>\<open>%\<close> by the literals 3600 and 60 is computed without rounding
    error, and so is \<^verbatim>\<open>//\<close> as long as the double is below \<open>2\<^sup>5\<^sup>3\<close>; there exact
    arithmetic is what the code does. From \<open>2\<^sup>5\<^sup>3\<close> on the quotient of \<^verbatim>\<open>//\<close> may
    be rounded, and on a negative double \<^verbatim>\<open>%\<close> may round its result up to the divisor:
    statements that depend on the exact value there are stated with the bound. Format
    specifier \<^verbatim>\<open>.3f\<close> rounds the exact value of the double to three decimals, ties to
    even.
  \<^item> A Python string is a \<open>string\<close>; a character stands for a code point below 256.
  \<^item> A segment is a dictionary from keys to values, as Whisper returns it.
  \<^item> Exceptions are values of type \<open>error\<close>; a function with effects takes the world
    and returns its outcome together with the world it leaves behind.
  \<^item> Console output (\<^verbatim>\<open>print\<close>, the progress bar) is not modelled: it touches neither
    files nor collaborators.
\<close>

subsection \<open>Float arithmetic and number formatting\<close>

text \<open>
  \<^verbatim>\<open>x // y\<close> and \<^verbatim>\<open>x % y\<close> on floats, for the positive divisors the source uses, in
  exact arithmetic: \<open>py_floordiv\<close> is what the code computes for \<open>0 \<le> x < 2\<^sup>5\<^sup>3\<close>,
  \<open>py_mod\<close> for every \<open>x \<ge> 0\<close>.
\<close>

definition py_floordiv :: "real \<Rightarrow> real \<Rightarrow> real" where
  "py_floordiv x y = of_int \<lfloor>x / y\<rfloor>"

definition py_mod :: "real \<Rightarrow> real \<Rightarrow> real" where
  "py_mod x y = x - y * of_int \<lfloor>x / y\<rfloor>"

text \<open>\<^verbatim>\<open>int(x)\<close> on a float truncates toward zero.\<close>

definition py_int :: "real \<Rightarrow> int" where
  "py_int x = (if 0 \<le> x then \<lfloor>x\<rfloor> else \<lceil>x\<rceil>)"

text \<open>Rounding to the nearest integer, a tie going to the even neighbour.\<close>

definition round_half_even :: "real \<Rightarrow> int" where
  "round_half_even x =
     (let f = \<lfloor>x\<rfloor>; d = x - of_int f in
      if d < 1 / 2 then f
      else if 1 / 2 < d then f + 1
      else if even f then f else f + 1)"

definition digit_char :: "nat \<Rightarrow> char" where
  "digit_char d = ''0123456789'' ! d"

text \<open>The decimal digits of a natural number, as \<^verbatim>\<open>str\<close> and the format codes print them.\<close>

fun str_nat :: "nat \<Rightarrow> string" where
  "str_nat n = (if n < 10 then [digit_char n] else str_nat (n div 10) @ [digit_char (n mod 10)])"

declare str_nat.simps [simp del]

text \<open>Zero padding on the left up to a minimum width.\<close>

definition zfill :: "nat \<Rightarrow> string \<Rightarrow> string" where
  "zfill w s = replicate (w - length s) (CHR ''0'') @ s"

text \<open>
  Format \<^verbatim>\<open>{n:02}\<close> of an integer: minimum width two, zero filled, the sign counted in
  the width.
\<close>

definition format_d02 :: "int \<Rightarrow> string" where
  "format_d02 n =
     (if n < 0 then ''-'' @ zfill 1 (str_nat (nat (- n))) else zfill 2 (str_nat (nat n)))"

text \<open>
  Format \<^verbatim>\<open>{x:06.3f}\<close> of a float: three decimals after rounding, minimum width six,
  zero filled, the sign counted in the width.
\<close>

definition format_06_3f :: "real \<Rightarrow> string" where
  "format_06_3f x =
     (let q = nat (round_half_even (\<bar>x\<bar> * 1000));
          ip = str_nat (q div 1000);
          fp = zfill 3 (str_nat (q mod 1000))
      in if x < 0 then ''-'' @ zfill 1 ip @ ''.'' @ fp else zfill 2 ip @ ''.'' @ fp)"

text \<open>\<^verbatim>\<open>s.replace(a, b)\<close> for single characters.\<close>

definition replace_char :: "char \<Rightarrow> char \<Rightarrow> string \<Rightarrow> string" where
  "replace_char a b s = map (\<lambda>c. if c = a then b else c) s"

subsection \<open>The timestamp formatter\<close>

definition timestamp :: "real \<Rightarrow> string" where
  "timestamp sec =
     (let h = py_int (py_floordiv sec 3600);
          m = py_int (py_floordiv (py_mod sec 3600) 60);
          s = py_mod sec 60
      in replace_char (CHR ''.'') (CHR '','')
           (format_d02 h @ '':'' @ format_d02 m @ '':'' @ format_06_3f s))"

text \<open>
  The minutes the formatter prints, and the seconds field counted in milliseconds after
  rounding: auxiliary names for the two quantities the proofs speak about.
\<close>

definition ts_min :: "real \<Rightarrow> nat" where
  "ts_min sec = nat \<lfloor>py_mod sec 3600 / 60\<rfloor>"

definition ts_q :: "real \<Rightarrow> nat" where
  "ts_q sec = nat (round_half_even (py_mod sec 60 * 1000))"

subsection \<open>Derived file names\<close>

text \<open>The module-level names, as functions of \<^verbatim>\<open>PROJECT_NAME\<close>.\<close>

definition VIDEO_NAME :: "string \<Rightarrow> string" where
  "VIDEO_NAME project = project @ ''.mp4''"

definition AUDIO_NAME :: "string \<Rightarrow> string" where
  "AUDIO_NAME project = project @ ''_audio.wav''"

definition ZH_SUB :: "string \<Rightarrow> string" where
  "ZH_SUB project = project @ ''_zh.srt''"

definition EN_SUB :: "string \<Rightarrow> string" where
  "EN_SUB project = project @ ''_en.srt''"

definition RU_SUB :: "string \<Rightarrow> string" where
  "RU_SUB project = project @ ''_ru.srt''"

definition FR_SUB :: "string \<Rightarrow> string" where
  "FR_SUB project = project @ ''_fr.srt''"

definition ES_SUB :: "string \<Rightarrow> string" where
  "ES_SUB project = project @ ''_es.srt''"

definition DE_SUB :: "string \<Rightarrow> string" where
  "DE_SUB project = project @ ''_de.srt''"

text \<open>
  A file name of the form \<^verbatim>\<open><project>_<kind>.<ext>\<close>, for any text in the place of
  \<^verbatim>\<open><kind>\<close>.
\<close>

definition name_form :: "string \<Rightarrow> string \<Rightarrow> string \<Rightarrow> bool" where
  "name_form project ext name =
     (length project + length ext + 2 \<le> length name \<and>
      take (length project + 1) name = project @ ''_'' \<and>
      drop (length name - (length ext + 1)) name = ''.'' @ ext)"

subsection \<open>The caption clock pattern and the time a caption clock denotes\<close>

definition is_digit :: "char \<Rightarrow> bool" where
  "is_digit c = (c \<in> set ''0123456789'')"

text \<open>
  The regular expression \<^verbatim>\<open>^\d{2,}:\d{2}:\d{2},\d{3}$\<close>: the last ten characters are
  \<^verbatim>\<open>:dd:dd,ddd\<close>, and what precedes them is two or more digits.
\<close>

definition srt_pattern :: "string \<Rightarrow> bool" where
  "srt_pattern s =
     (let n = length s; hh = take (n - 10) s; r = drop (n - 10) s in
      12 \<le> n \<and> list_all is_digit hh \<and>
      r ! 0 = CHR '':'' \<and> is_digit (r ! 1) \<and> is_digit (r ! 2) \<and>
      r ! 3 = CHR '':'' \<and> is_digit (r ! 4) \<and> is_digit (r ! 5) \<and>
      r ! 6 = CHR '','' \<and> is_digit (r ! 7) \<and> is_digit (r ! 8) \<and> is_digit (r ! 9))"

definition digit_val :: "char \<Rightarrow> nat" where
  "digit_val c = of_char c - 48"

definition nat_of_digits :: "string \<Rightarrow> nat" where
  "nat_of_digits s = foldl (\<lambda>a c. 10 * a + digit_val c) 0 s"

text \<open>
  The number of milliseconds a caption clock \<^verbatim>\<open>H..H:MM:SS,mmm\<close> stands for, read field
  by field.
\<close>

definition srt_millis :: "string \<Rightarrow> nat" where
  "srt_millis s =
     (let n = length s; hh = take (n - 10) s; r = drop (n - 10) s in
      nat_of_digits hh * 3600000 + nat_of_digits (take 2 (drop 1 r)) * 60000 +
      nat_of_digits (take 2 (drop 4 r)) * 1000 + nat_of_digits (drop 7 r))"

text \<open>The milliseconds field of a caption clock: its last three characters.\<close>

definition ms_field :: "string \<Rightarrow> string" where
  "ms_field s = drop (length s - 3) s"

subsection \<open>Values, segments and errors\<close>

text \<open>The values a segment dictionary holds: numbers and text.\<close>

datatype pyval = Float real | Str string

type_synonym segment = "string \<Rightarrow> pyval option"

text \<open>
  The exceptions the code can raise: a missing dictionary key, an operation on a value of
  the wrong type, a file that cannot be opened, an external tool that exits with a
  non-zero status, and an exception raised inside a collaborator library.
\<close>

datatype error =
    KeyError string
  | TypeError
  | AttributeError
  | OSError string
  | CalledProcessError "string list"
  | Raised string

abbreviation nl :: string where
  "nl \<equiv> [CHR 0x0A]"

text \<open>\<^verbatim>\<open>str.strip()\<close>: the white space of Python among the code points below 256.\<close>

definition is_space :: "char \<Rightarrow> bool" where
  "is_space c = (of_char c \<in> set [9, 10, 11, 12, 13, 28, 29, 30, 31, 32, 133, 160 :: nat])"

definition strip :: "string \<Rightarrow> string" where
  "strip s = rev (dropWhile is_space (rev (dropWhile is_space s)))"

text \<open>\<^verbatim>\<open>seg[key]\<close>, \<^verbatim>\<open>seg.get(key, default)\<close>, \<^verbatim>\<open>v.strip()\<close> and \<^verbatim>\<open>timestamp(v)\<close> on a value.\<close>

definition getitem :: "segment \<Rightarrow> string \<Rightarrow> error + pyval" where
  "getitem seg key = (case seg key of None \<Rightarrow> Inl (KeyError key) | Some v \<Rightarrow> Inr v)"

definition dict_get :: "segment \<Rightarrow> string \<Rightarrow> pyval \<Rightarrow> pyval" where
  "dict_get seg key dflt = (case seg key of None \<Rightarrow> dflt | Some v \<Rightarrow> v)"

fun str_strip :: "pyval \<Rightarrow> error + string" where
  "str_strip (Str s) = Inr (strip s)"
| "str_strip (Float x) = Inl AttributeError"

fun timestamp_call :: "pyval \<Rightarrow> error + string" where
  "timestamp_call (Float x) = Inr (timestamp x)"
| "timestamp_call (Str s) = Inl TypeError"

text \<open>
  The clock line \<^verbatim>\<open>{timestamp(seg['start'])} --> {timestamp(seg['end'])}\<close>, evaluated left
  to right.
\<close>

definition time_line :: "segment \<Rightarrow> error + string" where
  "time_line seg =
     (case getitem seg ''start'' of
        Inl e \<Rightarrow> Inl e
      | Inr a \<Rightarrow>
          (case timestamp_call a of
             Inl e \<Rightarrow> Inl e
           | Inr ta \<Rightarrow>
               (case getitem seg ''end'' of
                  Inl e \<Rightarrow> Inl e
                | Inr b \<Rightarrow>
                    (case timestamp_call b of
                       Inl e \<Rightarrow> Inl e
                     | Inr tb \<Rightarrow> Inr (ta @ '' --> '' @ tb)))))"

text \<open>\<^verbatim>\<open>seg[text_key].strip()\<close> of \<^verbatim>\<open>save_subtitles\<close>.\<close>

definition selected_text :: "string \<Rightarrow> segment \<Rightarrow> error + string" where
  "selected_text text_key seg =
     (case getitem seg text_key of Inl e \<Rightarrow> Inl e | Inr v \<Rightarrow> str_strip v)"

text \<open>\<^verbatim>\<open>seg.get("original_text", seg.get("text", "")).strip()\<close> of \<^verbatim>\<open>main\<close>.\<close>

definition zh_text :: "segment \<Rightarrow> error + string" where
  "zh_text seg = str_strip (dict_get seg ''original_text'' (dict_get seg ''text'' (Str [])))"

subsection \<open>The world: files and collaborators\<close>

text \<open>
  What the pipeline does to its surroundings, in order: an external tool run, a
  transcription, a translation request, a file opened for writing, a file removed.
\<close>

datatype event =
    Run "string list"
  | Transcribe string string
  | Translate string string string
  | OpenW string
  | Remove string

record world =
  files :: "string \<Rightarrow> string option"
  trace :: "event list"

text \<open>
  The collaborators. An external tool does what it likes to the files and reports an
  error or none; Whisper returns segments or raises; Argos returns text or raises; some
  paths cannot be opened for writing.
\<close>

record env =
  subprocess_run :: "string list \<Rightarrow> (string \<Rightarrow> string option) \<Rightarrow> error option \<times> (string \<Rightarrow> string option)"
  whisper_transcribe :: "string \<Rightarrow> string \<Rightarrow> (string \<Rightarrow> string option) \<Rightarrow> error + segment list"
  argos_translate :: "string \<Rightarrow> string \<Rightarrow> string \<Rightarrow> error + string"
  open_fails :: "string \<Rightarrow> bool"

definition path_exists :: "world \<Rightarrow> string \<Rightarrow> bool" where
  "path_exists w p = (files w p \<noteq> None)"

text \<open>\<^verbatim>\<open>subprocess.run(args, check=True)\<close>.\<close>

definition run_tool :: "env \<Rightarrow> string list \<Rightarrow> world \<Rightarrow> (error + unit) \<times> world" where
  "run_tool env args w =
     (let (r, fs) = subprocess_run env args (files w);
          w' = w\<lparr>files := fs, trace := trace w @ [Run args]\<rparr>
      in (case r of None \<Rightarrow> (Inr (), w') | Some e \<Rightarrow> (Inl e, w')))"

text \<open>\<^verbatim>\<open>open(p, "w")\<close> truncates or creates the file; \<^verbatim>\<open>f.write(data)\<close> appends to it.\<close>

definition open_w :: "env \<Rightarrow> string \<Rightarrow> world \<Rightarrow> (error + unit) \<times> world" where
  "open_w env p w =
     (if open_fails env p then (Inl (OSError p), w)
      else (Inr (), w\<lparr>files := (files w)(p \<mapsto> []), trace := trace w @ [OpenW p]\<rparr>))"

definition f_write :: "string \<Rightarrow> string \<Rightarrow> world \<Rightarrow> world" where
  "f_write p data w =
     w\<lparr>files := (files w)(p \<mapsto> (case files w p of None \<Rightarrow> data | Some c \<Rightarrow> c @ data))\<rparr>"

definition os_remove :: "string \<Rightarrow> world \<Rightarrow> world" where
  "os_remove p w = w\<lparr>files := (files w)(p := None), trace := trace w @ [Remove p]\<rparr>"

subsection \<open>Configuration\<close>

record config =
  PROJECT_NAME :: string
  M3U8_URL :: string
  FFMPEG :: string
  MODEL :: string
  SAVE_AUDIO :: bool
  SAVE_ZH_SUB :: bool
  SAVE_EN_SUB :: bool
  SAVE_LANGS :: "(string \<times> bool) list"

subsection \<open>The stages\<close>

definition download_video :: "config \<Rightarrow> env \<Rightarrow> world \<Rightarrow> (error + unit) \<times> world" where
  "download_video cfg env w =
     (if path_exists w (VIDEO_NAME (PROJECT_NAME cfg)) then (Inr (), w)
      else run_tool env
             [''yt-dlp'', M3U8_URL cfg, ''-o'', VIDEO_NAME (PROJECT_NAME cfg),
              ''--no-check-certificate''] w)"

definition extract_audio :: "config \<Rightarrow> env \<Rightarrow> world \<Rightarrow> (error + unit) \<times> world" where
  "extract_audio cfg env w =
     (if path_exists w (AUDIO_NAME (PROJECT_NAME cfg)) then (Inr (), w)
      else run_tool env
             [FFMPEG cfg, ''-i'', VIDEO_NAME (PROJECT_NAME cfg), ''-ac'', ''1'', ''-ar'', ''16000'',
              ''-vn'', ''-y'', AUDIO_NAME (PROJECT_NAME cfg)] w)"

text \<open>Loading the model and transcribing are one call into the recognition collaborator.\<close>

definition recognize_and_translate_en ::
  "config \<Rightarrow> env \<Rightarrow> world \<Rightarrow> (error + segment list) \<times> world" where
  "recognize_and_translate_en cfg env w =
     (whisper_transcribe env (MODEL cfg) (AUDIO_NAME (PROJECT_NAME cfg)) (files w),
      w\<lparr>trace := trace w @ [Transcribe (MODEL cfg) (AUDIO_NAME (PROJECT_NAME cfg))]\<rparr>)"

text \<open>
  The loop that writes one block per segment, shared by \<^verbatim>\<open>save_subtitles\<close> and the
  native-caption step of \<^verbatim>\<open>main\<close>, which differ in the expression that yields the text.
  The three writes of a block happen one after the other, so an exception leaves the
  part of the block written before it in the file.
\<close>

fun write_blocks ::
  "(segment \<Rightarrow> error + string) \<Rightarrow> string \<Rightarrow> nat \<Rightarrow> segment list \<Rightarrow> world \<Rightarrow> (error + unit) \<times> world" where
  "write_blocks text_of f i [] w = (Inr (), w)"
| "write_blocks text_of f i (seg # segs) w =
     (let w1 = f_write f (str_nat i @ nl) w in
      case time_line seg of
        Inl e \<Rightarrow> (Inl e, w1)
      | Inr line \<Rightarrow>
          (let w2 = f_write f (line @ nl) w1 in
           case text_of seg of
             Inl e \<Rightarrow> (Inl e, w2)
           | Inr t \<Rightarrow> write_blocks text_of f (Suc i) segs (f_write f (t @ nl @ nl) w2)))"

definition save_subtitles ::
  "env \<Rightarrow> segment list \<Rightarrow> string \<Rightarrow> string \<Rightarrow> world \<Rightarrow> (error + unit) \<times> world" where
  "save_subtitles env segments filename text_key w =
     (case open_w env filename w of
        (Inl e, w') \<Rightarrow> (Inl e, w')
      | (Inr u, w') \<Rightarrow> write_blocks (selected_text text_key) filename 1 segments w')"

text \<open>The native-caption step of \<^verbatim>\<open>main\<close> (the block under \<^verbatim>\<open>if SAVE_ZH_SUB\<close>).\<close>

definition save_zh_subtitles ::
  "env \<Rightarrow> segment list \<Rightarrow> string \<Rightarrow> world \<Rightarrow> (error + unit) \<times> world" where
  "save_zh_subtitles env segments filename w =
     (case open_w env filename w of
        (Inl e, w') \<Rightarrow> (Inl e, w')
      | (Inr u, w') \<Rightarrow> write_blocks zh_text filename 1 segments w')"

text \<open>
  The loop of \<^verbatim>\<open>translate_and_save\<close>: \<open>i\<close> is the index \<^verbatim>\<open>enumerate\<close> counts from zero,
  \<open>out_blocks\<close> the list the loop appends to.
\<close>

fun translate_loop ::
  "env \<Rightarrow> string \<Rightarrow> string \<Rightarrow> nat \<Rightarrow> segment list \<Rightarrow> string list \<Rightarrow> world
     \<Rightarrow> (error + string list) \<times> world" where
  "translate_loop env src_lang dst_lang i [] out_blocks w = (Inr out_blocks, w)"
| "translate_loop env src_lang dst_lang i (seg # segs) out_blocks w =
     (case selected_text ''text'' seg of
        Inl e \<Rightarrow> (Inl e, w)
      | Inr en_text \<Rightarrow>
          (let w1 = w\<lparr>trace := trace w @ [Translate en_text src_lang dst_lang]\<rparr> in
           case argos_translate env en_text src_lang dst_lang of
             Inl e \<Rightarrow> (Inl e, w1)
           | Inr translated \<Rightarrow>
               (case time_line seg of
                  Inl e \<Rightarrow> (Inl e, w1)
                | Inr line \<Rightarrow>
                    translate_loop env src_lang dst_lang (Suc i) segs
                      (out_blocks @ [str_nat (i + 1) @ nl @ line @ nl @ translated @ nl @ nl])
                      w1)))"

definition translate_and_save ::
  "env \<Rightarrow> segment list \<Rightarrow> string \<Rightarrow> string \<Rightarrow> string \<Rightarrow> world \<Rightarrow> (error + unit) \<times> world" where
  "translate_and_save env segments src_lang dst_lang filename w =
     (case translate_loop env src_lang dst_lang 0 segments [] w of
        (Inl e, w1) \<Rightarrow> (Inl e, w1)
      | (Inr out_blocks, w1) \<Rightarrow>
          (case open_w env filename w1 of
             (Inl e, w2) \<Rightarrow> (Inl e, w2)
           | (Inr u, w2) \<Rightarrow> (Inr (), f_write filename (concat out_blocks) w2)))"

subsection \<open>The orchestration\<close>

definition lang_map :: "string \<Rightarrow> (string \<times> string \<times> string) list" where
  "lang_map project =
     [(''ru'', ''Russian'', RU_SUB project), (''fr'', ''French'', FR_SUB project),
      (''es'', ''Spanish'', ES_SUB project), (''de'', ''German'', DE_SUB project)]"

text \<open>The loop over \<^verbatim>\<open>SAVE_LANGS.items()\<close>.\<close>

fun fan_out ::
  "env \<Rightarrow> string \<Rightarrow> segment list \<Rightarrow> (string \<times> bool) list \<Rightarrow> world \<Rightarrow> (error + unit) \<times> world" where
  "fan_out env project segments [] w = (Inr (), w)"
| "fan_out env project segments ((code, enabled) # rest) w =
     (if \<not> enabled then fan_out env project segments rest w
      else
        (case map_of (lang_map project) code of
           None \<Rightarrow> (Inl (KeyError code), w)
         | Some (lang_name, filename) \<Rightarrow>
             (case translate_and_save env segments ''en'' code filename w of
                (Inl e, w') \<Rightarrow> (Inl e, w')
              | (Inr u, w') \<Rightarrow> fan_out env project segments rest w')))"

definition main :: "config \<Rightarrow> env \<Rightarrow> world \<Rightarrow> (error + unit) \<times> world" where
  "main cfg env w0 =
     (case download_video cfg env w0 of
        (Inl e, w1) \<Rightarrow> (Inl e, w1)
      | (Inr u1, w1) \<Rightarrow>
     (case (if SAVE_AUDIO cfg then extract_audio cfg env w1 else (Inr (), w1)) of
        (Inl e, w2) \<Rightarrow> (Inl e, w2)
      | (Inr u2, w2) \<Rightarrow>
     (case recognize_and_translate_en cfg env w2 of
        (Inl e, w3) \<Rightarrow> (Inl e, w3)
      | (Inr segments, w3) \<Rightarrow>
     (case (if SAVE_ZH_SUB cfg
            then save_zh_subtitles env segments (ZH_SUB (PROJECT_NAME cfg)) w3
            else (Inr (), w3)) of
        (Inl e, w4) \<Rightarrow> (Inl e, w4)
      | (Inr u4, w4) \<Rightarrow>
     (case (if SAVE_EN_SUB cfg
            then save_subtitles env segments (EN_SUB (PROJECT_NAME cfg)) ''text'' w4
            else (Inr (), w4)) of
        (Inl e, w5) \<Rightarrow> (Inl e, w5)
      | (Inr u5, w5) \<Rightarrow>
     (case fan_out env (PROJECT_NAME cfg) segments (SAVE_LANGS cfg) w5 of
        (Inl e, w6) \<Rightarrow> (Inl e, w6)
      | (Inr u6, w6) \<Rightarrow>
          (Inr (),
           if \<not> SAVE_AUDIO cfg \<and> path_exists w6 (AUDIO_NAME (PROJECT_NAME cfg))
           then os_remove (AUDIO_NAME (PROJECT_NAME cfg)) w6 else w6)))))))"

subsection \<open>Caption files, as the specification describes them\<close>

text \<open>Reading a field of a well-formed segment.\<close>

fun is_float :: "pyval option \<Rightarrow> bool" where
  "is_float (Some (Float x)) = True"
| "is_float v = False"

fun is_str :: "pyval option \<Rightarrow> bool" where
  "is_str (Some (Str s)) = True"
| "is_str v = False"

fun the_float :: "pyval option \<Rightarrow> real" where
  "the_float (Some (Float x)) = x"
| "the_float v = 0"

fun the_str :: "pyval option \<Rightarrow> string" where
  "the_str (Some (Str s)) = s"
| "the_str v = []"

text \<open>A segment carries numeric start and end times; a key holds text; a key, if present, holds text.\<close>

definition has_times :: "segment \<Rightarrow> bool" where
  "has_times seg = (is_float (seg ''start'') \<and> is_float (seg ''end''))"

definition has_text :: "string \<Rightarrow> segment \<Rightarrow> bool" where
  "has_text key seg = is_str (seg key)"

definition text_if_present :: "string \<Rightarrow> segment \<Rightarrow> bool" where
  "text_if_present key seg = (seg key = None \<or> is_str (seg key))"

text \<open>
  One caption block: the index line, the line with the two clocks, the text, a blank
  line.
\<close>

definition srt_block :: "nat \<Rightarrow> string \<Rightarrow> string \<Rightarrow> string \<Rightarrow> string" where
  "srt_block i start_clock end_clock txt =
     str_nat i @ nl @ start_clock @ '' --> '' @ end_clock @ nl @ txt @ nl @ nl"

text \<open>
  A caption file: one block per segment, in the order of the segments, numbered from 1,
  with the clocks of the segment's own start and end.
\<close>

definition caption_file :: "(segment \<Rightarrow> string) \<Rightarrow> segment list \<Rightarrow> string" where
  "caption_file text_of segments =
     concat (map (\<lambda>(i, seg). srt_block i (timestamp (the_float (seg ''start'')))
                                 (timestamp (the_float (seg ''end''))) (text_of seg))
                 (enumerate 1 segments))"

text \<open>The original text if the segment has one, else the primary text, else nothing.\<close>

definition fallback_text :: "segment \<Rightarrow> string" where
  "fallback_text seg =
     (if seg ''original_text'' \<noteq> None then the_str (seg ''original_text'')
      else if seg ''text'' \<noteq> None then the_str (seg ''text'')
      else [])"

text \<open>What the translation engine returns for the trimmed text of a segment.\<close>

definition translation_of :: "env \<Rightarrow> string \<Rightarrow> string \<Rightarrow> segment \<Rightarrow> error + string" where
  "translation_of env src_lang dst_lang seg =
     argos_translate env (strip (the_str (seg ''text''))) src_lang dst_lang"

fun is_open_w :: "event \<Rightarrow> bool" where
  "is_open_w (OpenW p) = True"
| "is_open_w e = False"

subsection \<open>A small world to run the pipeline in\<close>

definition demo_segment :: "real \<Rightarrow> real \<Rightarrow> string \<Rightarrow> segment" where
  "demo_segment a b t = [''start'' \<mapsto> Float a, ''end'' \<mapsto> Float b, ''text'' \<mapsto> Str t]"

text \<open>
  A downloader and an extractor that succeed and create their output file, a recognizer
  that raises, a translator that prefixes the target language and raises on empty text,
  and no unwritable path.
\<close>

definition demo_env :: env where
  "demo_env =
     \<lparr>subprocess_run =
        (\<lambda>args fs. (None, if hd args = ''yt-dlp'' then fs(args ! 3 \<mapsto> ''video'')
                              else fs(last args \<mapsto> ''audio''))),
      whisper_transcribe = (\<lambda>model audio fs. Inl (Raised ''RuntimeError'')),
      argos_translate = (\<lambda>t src dst. if t = [] then Inl (Raised ''TranslationError'') else Inr (dst @ '':'' @ t)),
      open_fails = (\<lambda>p. False)\<rparr>"

definition demo_world :: world where
  "demo_world = \<lparr>files = Map.empty, trace = []\<rparr>"

definition demo_config :: config where
  "demo_config =
     \<lparr>PROJECT_NAME = ''my_video'', M3U8_URL = ''https://example.com/path/to/video/playlist.m3u8'',
      FFMPEG = ''/opt/homebrew/bin/ffmpeg'', MODEL = ''large-v3'',
      SAVE_AUDIO = True, SAVE_ZH_SUB = True, SAVE_EN_SUB = True,
      SAVE_LANGS = [(''ru'', True), (''fr'', False), (''es'', False), (''de'', False)]\<rparr>"

subsection \<open>Digits, padding and rounding\<close>

lemma replicate_numeral_eval: "replicate (numeral k) x = x # replicate (pred_numeral k) x"
  by (simp add: numeral_eq_Suc)

lemma py_int_floordiv: "py_int (py_floordiv x y) = \<lfloor>x / y\<rfloor>"
  by (simp add: py_int_def py_floordiv_def)

lemmas ts_eval = timestamp_def py_int_floordiv py_mod_def round_half_even_def
  digit_char_def zfill_def format_d02_def format_06_3f_def replace_char_def Let_def
  str_nat.simps replicate_numeral_eval

lemma digit_char_cases: "d < 10 \<Longrightarrow> d = 0 \<or> d = 1 \<or> d = 2 \<or> d = 3 \<or> d = 4 \<or> d = 5 \<or> d = 6 \<or> d = 7 \<or> d = 8 \<or> d = (9::nat)"
  by arith

lemma is_digit_digit_char: "d < 10 \<Longrightarrow> is_digit (digit_char d)"
  using digit_char_cases[of d] by (auto simp: is_digit_def digit_char_def)

lemma digit_val_digit_char: "d < 10 \<Longrightarrow> digit_val (digit_char d) = d"
  using digit_char_cases[of d] by (auto simp: digit_val_def digit_char_def)

lemma of_char_digit_char: "d < 10 \<Longrightarrow> of_char (digit_char d) = 48 + d"
  using digit_char_cases[of d] by (auto simp: digit_char_def)

lemma is_digit_not_punct: "is_digit c \<Longrightarrow> c \<noteq> CHR ''.'' \<and> c \<noteq> CHR ''-'' \<and> c \<noteq> CHR '':'' \<and> c \<noteq> CHR '',''"
  by (auto simp: is_digit_def)

lemma str_nat_digits: "list_all is_digit (str_nat n)"
proof (induction n rule: str_nat.induct)
  case (1 n)
  show ?case
  proof (cases "n < 10")
    case True
    then show ?thesis by (simp add: str_nat.simps[of n] is_digit_digit_char)
  next
    case False
    then have "list_all is_digit (str_nat (n div 10))" using 1 by simp
    moreover have "is_digit (digit_char (n mod 10))" by (simp add: is_digit_digit_char)
    ultimately show ?thesis using False by (simp add: str_nat.simps[of n])
  qed
qed

lemma str_nat_nonempty: "str_nat n \<noteq> []"
  by (simp add: str_nat.simps[of n])

lemma str_nat_lt10: "n < 10 \<Longrightarrow> str_nat n = [digit_char n]"
  by (simp add: str_nat.simps[of n])

lemma str_nat_lt100: "10 \<le> n \<Longrightarrow> n < 100 \<Longrightarrow> str_nat n = [digit_char (n div 10), digit_char (n mod 10)]"
  by (simp add: str_nat.simps[of n] str_nat_lt10)

lemma str_nat_lt1000: "100 \<le> n \<Longrightarrow> n < 1000 \<Longrightarrow>
  str_nat n = [digit_char (n div 100), digit_char (n div 10 mod 10), digit_char (n mod 10)]"
  by (simp add: str_nat.simps[of n] str_nat_lt100 div_mult2_eq[symmetric])

lemma digit_char_0: "digit_char 0 = CHR ''0''"
  by (simp add: digit_char_def)

lemma pad2_lt100: "n < 100 \<Longrightarrow> zfill 2 (str_nat n) = [digit_char (n div 10), digit_char (n mod 10)]"
proof (cases "n < 10")
  case True
  then show ?thesis by (simp add: zfill_def str_nat_lt10 digit_char_0)
next
  case False
  assume "n < 100"
  with False show ?thesis by (simp add: zfill_def str_nat_lt100)
qed

lemma pad3_lt1000: "n < 1000 \<Longrightarrow>
  zfill 3 (str_nat n) = [digit_char (n div 100), digit_char (n div 10 mod 10), digit_char (n mod 10)]"
proof -
  assume n: "n < 1000"
  consider "n < 10" | "10 \<le> n" "n < 100" | "100 \<le> n" by linarith
  then show ?thesis
  proof cases
    case 1
    then show ?thesis by (simp add: zfill_def str_nat_lt10 digit_char_0 replicate_numeral_eval)
  next
    case 2
    then show ?thesis by (simp add: zfill_def str_nat_lt100 digit_char_0)
  next
    case 3
    with n show ?thesis by (simp add: zfill_def str_nat_lt1000)
  qed
qed

lemma is_digit_0: "is_digit (CHR ''0'')"
  by (simp add: is_digit_def)

lemma zfill_digits: "list_all is_digit s \<Longrightarrow> list_all is_digit (zfill w s)"
  by (auto simp: zfill_def list_all_iff is_digit_0)

lemma length_zfill: "length (zfill w s) = max w (length s)"
  by (simp add: zfill_def)

lemma nat_of_digits_snoc: "nat_of_digits (s @ [c]) = 10 * nat_of_digits s + digit_val c"
  by (simp add: nat_of_digits_def)

lemma nat_of_digits_str_nat: "nat_of_digits (str_nat n) = n"
proof (induction n rule: str_nat.induct)
  case (1 n)
  show ?case
  proof (cases "n < 10")
    case True
    then show ?thesis by (simp add: str_nat.simps[of n] nat_of_digits_def digit_val_digit_char)
  next
    case False
    then have "nat_of_digits (str_nat (n div 10)) = n div 10" using 1 by simp
    then show ?thesis using False
      by (simp add: str_nat.simps[of n] nat_of_digits_snoc digit_val_digit_char)
  qed
qed

lemma foldl_digits_zeros:
  "foldl (\<lambda>a c. 10 * a + digit_val c) 0 (replicate k (CHR ''0'') @ s) = foldl (\<lambda>a c. 10 * a + digit_val c) 0 s"
  by (induction k) (simp_all add: digit_val_def)

lemma nat_of_digits_zfill: "nat_of_digits (zfill w s) = nat_of_digits s"
  by (simp add: zfill_def nat_of_digits_def foldl_digits_zeros del: foldl_append)

lemma py_mod_bounds: "0 < y \<Longrightarrow> 0 \<le> py_mod x y \<and> py_mod x y < y"
proof -
  assume y: "0 < y"
  define r where "r = x / y - of_int \<lfloor>x / y\<rfloor>"
  have eq: "py_mod x y = y * r"
    using y by (simp add: py_mod_def r_def algebra_simps)
  have r0: "0 \<le> r" and r1: "r < 1" unfolding r_def by linarith+
  have "0 \<le> y * r" using y r0 by simp
  moreover have "y * r < y * 1" using y r1 by (intro mult_strict_left_mono)
  ultimately show ?thesis by (simp add: eq)
qed

lemma ts_min_lt60: "ts_min sec < 60"
proof -
  have "py_mod sec 3600 < 3600" using py_mod_bounds[of 3600 sec] by simp
  then have "py_mod sec 3600 / 60 < 60" by simp
  then have "\<lfloor>py_mod sec 3600 / 60\<rfloor> < 60" by linarith
  then show ?thesis unfolding ts_min_def by linarith
qed

lemma ts_min_nonneg: "0 \<le> \<lfloor>py_mod sec 3600 / 60\<rfloor>"
  using py_mod_bounds[of 3600 sec] by simp

lemma rhe_lower: "\<lfloor>x\<rfloor> \<le> round_half_even x"
  by (simp add: round_half_even_def Let_def)

lemma rhe_upper: "round_half_even x \<le> \<lfloor>x\<rfloor> + 1"
  by (simp add: round_half_even_def Let_def)

lemma rhe_of_int: "round_half_even (of_int n) = n"
  by (simp add: round_half_even_def Let_def)

lemma rhe_le_int: "x \<le> of_int n \<Longrightarrow> round_half_even x \<le> n"
proof (cases "x = of_int n")
  case True
  then show ?thesis by (simp add: rhe_of_int)
next
  case False
  assume "x \<le> of_int n"
  with False have "x < of_int n" by simp
  then have "\<lfloor>x\<rfloor> < n" by linarith
  then show ?thesis using rhe_upper[of x] by linarith
qed

lemma rhe_unfold:
  "round_half_even x =
     (if x - of_int \<lfloor>x\<rfloor> < 1 / 2 then \<lfloor>x\<rfloor>
      else if 1 / 2 < x - of_int \<lfloor>x\<rfloor> then \<lfloor>x\<rfloor> + 1
      else if even \<lfloor>x\<rfloor> then \<lfloor>x\<rfloor> else \<lfloor>x\<rfloor> + 1)"
  by (simp only: round_half_even_def Let_def)

lemma rhe_mono: "x \<le> y \<Longrightarrow> round_half_even x \<le> round_half_even y"
proof (cases "\<lfloor>x\<rfloor> = \<lfloor>y\<rfloor>")
  case True
  assume xy: "x \<le> y"
  define f where "f = \<lfloor>y\<rfloor>"
  define dx where "dx = x - of_int f"
  define dy where "dy = y - of_int f"
  have d: "dx \<le> dy" using xy by (simp add: dx_def dy_def)
  have rx: "round_half_even x = (if dx < 1 / 2 then f else if 1 / 2 < dx then f + 1
      else if even f then f else f + 1)"
    by (simp only: rhe_unfold[of x] True f_def[symmetric] dx_def[symmetric])
  have ry: "round_half_even y = (if dy < 1 / 2 then f else if 1 / 2 < dy then f + 1
      else if even f then f else f + 1)"
    by (simp only: rhe_unfold[of y] f_def[symmetric] dy_def[symmetric])
  consider "dx < 1 / 2" | "1 / 2 < dx" | "dx = 1 / 2" by linarith
  then show ?thesis
  proof cases
    case 1
    then have "round_half_even x = f" by (simp only: rx if_True)
    moreover have "f \<le> round_half_even y" using rhe_lower[of y] by (simp add: f_def)
    ultimately show ?thesis by simp
  next
    case 2
    then have "1 / 2 < dy" using d by linarith
    then have "\<not> dy < 1 / 2" by linarith
    then have "round_half_even y = f + 1" using \<open>1 / 2 < dy\<close> by (simp only: ry if_True if_False)
    moreover have "round_half_even x \<le> f + 1" using rhe_upper[of x] True by (simp add: f_def)
    ultimately show ?thesis by simp
  next
    case 3
    show ?thesis
    proof (cases "dy = 1 / 2")
      case True
      then show ?thesis using 3 by (simp only: rx ry)
    next
      case False
      then have "1 / 2 < dy" using d 3 by linarith
      then have "\<not> dy < 1 / 2" by linarith
      then have "round_half_even y = f + 1" using \<open>1 / 2 < dy\<close> by (simp only: ry if_True if_False)
      moreover have "round_half_even x \<le> f + 1" using rhe_upper[of x] \<open>\<lfloor>x\<rfloor> = \<lfloor>y\<rfloor>\<close> by (simp add: f_def)
      ultimately show ?thesis by simp
    qed
  qed
next
  case False
  assume "x \<le> y"
  then have "\<lfloor>x\<rfloor> \<le> \<lfloor>y\<rfloor>" by (rule floor_mono)
  with False have "\<lfloor>x\<rfloor> + 1 \<le> \<lfloor>y\<rfloor>" by simp
  then show ?thesis using rhe_upper[of x] rhe_lower[of y] by linarith
qed

lemma rhe_shift_even: "even n \<Longrightarrow> round_half_even (x + of_int n) = round_half_even x + n"
proof -
  assume n: "even n"
  have a: "\<lfloor>x + of_int n\<rfloor> = \<lfloor>x\<rfloor> + n" by simp
  have b: "x + of_int n - of_int (\<lfloor>x\<rfloor> + n) = x - of_int \<lfloor>x\<rfloor>" by simp
  have c: "even (\<lfloor>x\<rfloor> + n) = even \<lfloor>x\<rfloor>" using n by simp
  show ?thesis
    by (simp only: rhe_unfold[of "x + of_int n"] rhe_unfold[of x] a b c) (simp only: if_distrib[of "\<lambda>z. z + n"] add.assoc add.commute[of 1 n])
qed

lemma rhe_nonneg: "0 \<le> x \<Longrightarrow> 0 \<le> round_half_even x"
proof -
  assume "0 \<le> x"
  then have "0 \<le> \<lfloor>x\<rfloor>" by simp
  then show ?thesis using rhe_lower[of x] by linarith
qed

lemma ts_q_le: "ts_q sec \<le> 60000"
proof -
  have "py_mod sec 60 < 60" using py_mod_bounds[of 60 sec] by simp
  then have "py_mod sec 60 * 1000 \<le> of_int 60000" by simp
  then have "round_half_even (py_mod sec 60 * 1000) \<le> 60000" by (rule rhe_le_int)
  then show ?thesis by (simp add: ts_q_def)
qed

lemma format_d02_no_dot: "CHR ''.'' \<notin> set (format_d02 n)"
proof -
  have "CHR ''.'' \<notin> set (str_nat k)" for k
    using str_nat_digits[of k] is_digit_not_punct[of "CHR ''.''"] by (auto simp: list_all_iff)
  then show ?thesis by (simp add: format_d02_def zfill_def)
qed

lemma replace_char_id: "a \<notin> set s \<Longrightarrow> replace_char a b s = s"
  by (induction s) (auto simp: replace_char_def)

lemma replace_char_append: "replace_char a b (s @ t) = replace_char a b s @ replace_char a b t"
  by (simp add: replace_char_def)

lemma format_06_3f_shape:
  assumes "0 \<le> s" and q: "q = nat (round_half_even (s * 1000))" and "q \<le> 60000"
  shows "format_06_3f s =
    [digit_char (q div 1000 div 10), digit_char (q div 1000 mod 10), CHR ''.'',
     digit_char (q mod 1000 div 100), digit_char (q mod 1000 div 10 mod 10), digit_char (q mod 1000 mod 10)]"
proof -
  have a: "q div 1000 < 100" using assms(3) by simp
  have b: "q mod 1000 < 1000" by simp
  have c: "\<bar>s\<bar> = s" using assms(1) by simp
  have d: "\<not> s < 0" using assms(1) by simp
  have "format_06_3f s = zfill 2 (str_nat (q div 1000)) @ ''.'' @ zfill 3 (str_nat (q mod 1000))"
    by (simp only: format_06_3f_def Let_def c q[symmetric] d if_False)
  then show ?thesis by (simp only: pad2_lt100[OF a] pad3_lt1000[OF b]) simp
qed

lemma digit_char_not_dot: "d < 10 \<Longrightarrow> digit_char d \<noteq> CHR ''.''"
  using is_digit_digit_char[of d] is_digit_not_punct[of "digit_char d"] by simp

lemma timestamp_shape:
  "timestamp sec = format_d02 \<lfloor>sec / 3600\<rfloor> @
     [CHR '':'', digit_char (ts_min sec div 10), digit_char (ts_min sec mod 10),
      CHR '':'', digit_char (ts_q sec div 1000 div 10), digit_char (ts_q sec div 1000 mod 10),
      CHR '','', digit_char (ts_q sec mod 1000 div 100), digit_char (ts_q sec mod 1000 div 10 mod 10),
      digit_char (ts_q sec mod 1000 mod 10)]"
proof -
  have lt: "ts_min sec < 100" using ts_min_lt60[of sec] by simp
  have "format_d02 \<lfloor>py_mod sec 3600 / 60\<rfloor> = zfill 2 (str_nat (ts_min sec))"
    using ts_min_nonneg[of sec] by (simp add: format_d02_def ts_min_def)
  then have m: "format_d02 \<lfloor>py_mod sec 3600 / 60\<rfloor> =
      [digit_char (ts_min sec div 10), digit_char (ts_min sec mod 10)]"
    by (simp only: pad2_lt100[OF lt])
  have s0: "0 \<le> py_mod sec 60" using py_mod_bounds[of 60 sec] by simp
  have f: "format_06_3f (py_mod sec 60) =
    [digit_char (ts_q sec div 1000 div 10), digit_char (ts_q sec div 1000 mod 10), CHR ''.'',
     digit_char (ts_q sec mod 1000 div 100), digit_char (ts_q sec mod 1000 div 10 mod 10),
     digit_char (ts_q sec mod 1000 mod 10)]"
    by (rule format_06_3f_shape[OF s0 _ ts_q_le]) (simp add: ts_q_def)
  have d: "digit_char (ts_min sec div 10) \<noteq> CHR ''.''" "digit_char (ts_min sec mod 10) \<noteq> CHR ''.''"
    "digit_char (ts_q sec div 1000 div 10) \<noteq> CHR ''.''" "digit_char (ts_q sec div 1000 mod 10) \<noteq> CHR ''.''"
    "digit_char (ts_q sec mod 1000 div 100) \<noteq> CHR ''.''"
    "digit_char (ts_q sec mod 1000 div 10 mod 10) \<noteq> CHR ''.''"
    "digit_char (ts_q sec mod 1000 mod 10) \<noteq> CHR ''.''"
    using ts_min_lt60[of sec] ts_q_le[of sec] by (simp_all add: digit_char_not_dot)
  have r: "replace_char (CHR ''.'') (CHR '','') (format_d02 \<lfloor>sec / 3600\<rfloor>) = format_d02 \<lfloor>sec / 3600\<rfloor>"
    by (rule replace_char_id[OF format_d02_no_dot])
  have "timestamp sec = replace_char (CHR ''.'') (CHR '','') (format_d02 \<lfloor>sec / 3600\<rfloor>) @
      replace_char (CHR ''.'') (CHR '','') ('':'' @ format_d02 \<lfloor>py_mod sec 3600 / 60\<rfloor> @ '':'' @ format_06_3f (py_mod sec 60))"
    by (simp only: timestamp_def Let_def py_int_floordiv replace_char_append)
  also have "\<dots> = format_d02 \<lfloor>sec / 3600\<rfloor> @
      replace_char (CHR ''.'') (CHR '','') ('':'' @ format_d02 \<lfloor>py_mod sec 3600 / 60\<rfloor> @ '':'' @ format_06_3f (py_mod sec 60))"
    by (simp only: r)
  finally show ?thesis
    using d by (simp only: m f) (simp add: replace_char_def)
qed

text \<open>The two values the specification lists among its testable properties.\<close>

lemma timestamp_examples:
  "timestamp 0 = ''00:00:00,000''" "timestamp (14645 / 4) = ''01:01:01,250''"
  by (simp_all add: ts_eval)

lemma srt_pattern_shape:
  "srt_pattern (hh @ [c0, c1, c2, c3, c4, c5, c6, c7, c8, c9]) =
     (2 \<le> length hh \<and> list_all is_digit hh \<and>
      c0 = CHR '':'' \<and> is_digit c1 \<and> is_digit c2 \<and> c3 = CHR '':'' \<and> is_digit c4 \<and> is_digit c5 \<and>
      c6 = CHR '','' \<and> is_digit c7 \<and> is_digit c8 \<and> is_digit c9)"
  by (simp add: srt_pattern_def Let_def)

lemma nat_of_pad2: "n < 100 \<Longrightarrow> nat_of_digits [digit_char (n div 10), digit_char (n mod 10)] = n"
  by (simp add: nat_of_digits_def digit_val_digit_char)

lemma nat_of_pad3: "n < 1000 \<Longrightarrow>
   nat_of_digits [digit_char (n div 100), digit_char (n div 10 mod 10), digit_char (n mod 10)] = n"
proof -
  assume n: "n < 1000"
  have "zfill 3 (str_nat n) = [digit_char (n div 100), digit_char (n div 10 mod 10), digit_char (n mod 10)]"
    by (rule pad3_lt1000[OF n])
  then show ?thesis using nat_of_digits_zfill[of 3 "str_nat n"] nat_of_digits_str_nat[of n] by simp
qed

lemma srt_millis_shape:
  "srt_millis (hh @ [c0, c1, c2, c3, c4, c5, c6, c7, c8, c9]) =
     nat_of_digits hh * 3600000 + nat_of_digits [c1, c2] * 60000 +
     nat_of_digits [c4, c5] * 1000 + nat_of_digits [c7, c8, c9]"
  by (simp add: srt_millis_def Let_def)

lemma ms_field_shape: "ms_field (hh @ [c0, c1, c2, c3, c4, c5, c6, c7, c8, c9]) = [c7, c8, c9]"
  by (simp add: ms_field_def)

lemma format_d02_nonneg: "0 \<le> h \<Longrightarrow> format_d02 h = zfill 2 (str_nat (nat h))"
  by (simp add: format_d02_def)

lemma format_d02_neg: "h < 0 \<Longrightarrow> format_d02 h = CHR ''-'' # str_nat (nat (- h))"
  using str_nat_nonempty[of "nat (- h)"]
  by (cases "str_nat (nat (- h))") (simp_all add: format_d02_def zfill_def)

lemma ts_min_lt10: "ts_min sec div 10 < 10" "ts_min sec mod 10 < 10"
  using ts_min_lt60[of sec] by simp_all

lemma ts_q_lt10: "ts_q sec div 1000 div 10 < 10" "ts_q sec div 1000 mod 10 < 10"
  "ts_q sec mod 1000 div 100 < 10" "ts_q sec mod 1000 div 10 mod 10 < 10" "ts_q sec mod 1000 mod 10 < 10"
  using ts_q_le[of sec] by simp_all

lemma timestamp_pattern: "0 \<le> sec \<Longrightarrow> srt_pattern (timestamp sec)"
proof -
  assume "0 \<le> sec"
  then have h: "0 \<le> \<lfloor>sec / 3600\<rfloor>" by simp
  have l: "2 \<le> length (format_d02 \<lfloor>sec / 3600\<rfloor>)"
    by (simp add: format_d02_nonneg[OF h] length_zfill)
  have d: "list_all is_digit (format_d02 \<lfloor>sec / 3600\<rfloor>)"
    by (simp add: format_d02_nonneg[OF h] zfill_digits str_nat_digits)
  show ?thesis
    by (simp only: timestamp_shape srt_pattern_shape)
       (simp add: l d is_digit_digit_char ts_min_lt10 ts_q_lt10)
qed

lemma timestamp_neg_head: "sec < 0 \<Longrightarrow> hd (timestamp sec) = CHR ''-''"
proof -
  assume "sec < 0"
  then have "sec / 3600 < 0" by simp
  then have h: "\<lfloor>sec / 3600\<rfloor> < 0" by linarith
  show ?thesis by (simp add: timestamp_shape format_d02_neg[OF h])
qed

lemma timestamp_neg_no_pattern: "sec < 0 \<Longrightarrow> \<not> srt_pattern (timestamp sec)"
proof -
  assume "sec < 0"
  then have "sec / 3600 < 0" by simp
  then have h: "\<lfloor>sec / 3600\<rfloor> < 0" by linarith
  have "\<not> is_digit (CHR ''-'')" by (simp add: is_digit_def)
  then show ?thesis
    by (simp only: timestamp_shape srt_pattern_shape format_d02_neg[OF h]) simp
qed

lemma ts_min_eq: "int (ts_min sec) = \<lfloor>sec / 60\<rfloor> - 60 * \<lfloor>sec / 3600\<rfloor>"
proof -
  have "py_mod sec 3600 / 60 = sec / 60 - of_int (60 * \<lfloor>sec / 3600\<rfloor>)"
    by (simp add: py_mod_def field_simps)
  then have "\<lfloor>py_mod sec 3600 / 60\<rfloor> = \<lfloor>sec / 60\<rfloor> - 60 * \<lfloor>sec / 3600\<rfloor>"
    by (simp only: floor_diff_of_int)
  then show ?thesis using ts_min_nonneg[of sec] by (simp add: ts_min_def)
qed

lemma py_mod60_nonneg: "0 \<le> round_half_even (py_mod sec 60 * 1000)"
proof -
  have "0 \<le> py_mod sec 60" using py_mod_bounds[of 60 sec] by simp
  then have "0 \<le> py_mod sec 60 * 1000" by simp
  then show ?thesis by (rule rhe_nonneg)
qed

lemma ts_q_eq: "int (ts_q sec) = round_half_even (sec * 1000) - 60000 * \<lfloor>sec / 60\<rfloor>"
proof -
  have "py_mod sec 60 * 1000 = sec * 1000 + of_int (- 60000 * \<lfloor>sec / 60\<rfloor>)"
    by (simp add: py_mod_def algebra_simps)
  moreover have "even (- 60000 * \<lfloor>sec / 60\<rfloor>)" by simp
  ultimately have "round_half_even (py_mod sec 60 * 1000) =
      round_half_even (sec * 1000) + (- 60000 * \<lfloor>sec / 60\<rfloor>)"
    by (simp only: rhe_shift_even)
  then show ?thesis using py_mod60_nonneg[of sec] by (simp add: ts_q_def)
qed

lemma timestamp_millis:
  assumes "0 \<le> sec"
  shows "srt_millis (timestamp sec) = nat (round_half_even (sec * 1000))"
proof -
  have h: "0 \<le> \<lfloor>sec / 3600\<rfloor>" using assms by simp
  have hh: "nat_of_digits (format_d02 \<lfloor>sec / 3600\<rfloor>) = nat \<lfloor>sec / 3600\<rfloor>"
    by (simp add: format_d02_nonneg[OF h] nat_of_digits_zfill nat_of_digits_str_nat)
  have m: "nat_of_digits [digit_char (ts_min sec div 10), digit_char (ts_min sec mod 10)] = ts_min sec"
    using ts_min_lt60[of sec] by (intro nat_of_pad2) simp
  have s: "nat_of_digits [digit_char (ts_q sec div 1000 div 10), digit_char (ts_q sec div 1000 mod 10)]
      = ts_q sec div 1000"
    using ts_q_le[of sec] by (intro nat_of_pad2) simp
  have ms: "nat_of_digits [digit_char (ts_q sec mod 1000 div 100),
      digit_char (ts_q sec mod 1000 div 10 mod 10), digit_char (ts_q sec mod 1000 mod 10)]
      = ts_q sec mod 1000"
    by (intro nat_of_pad3) simp
  have "srt_millis (timestamp sec) =
      nat \<lfloor>sec / 3600\<rfloor> * 3600000 + ts_min sec * 60000 + (ts_q sec div 1000) * 1000 + ts_q sec mod 1000"
    by (simp only: timestamp_shape srt_millis_shape hh m s ms)
  also have "\<dots> = nat \<lfloor>sec / 3600\<rfloor> * 3600000 + ts_min sec * 60000 + ts_q sec"
    by simp
  finally have "int (srt_millis (timestamp sec)) =
      \<lfloor>sec / 3600\<rfloor> * 3600000 + int (ts_min sec) * 60000 + int (ts_q sec)"
    using h by simp
  also have "\<dots> = round_half_even (sec * 1000)"
    by (simp only: ts_min_eq ts_q_eq) simp
  finally show ?thesis by simp
qed

lemma timestamp_millis_mono:
  assumes "0 \<le> t1" "t1 \<le> t2"
  shows "srt_millis (timestamp t1) \<le> srt_millis (timestamp t2)"
proof -
  have "0 \<le> t2" using assms by simp
  moreover have "round_half_even (t1 * 1000) \<le> round_half_even (t2 * 1000)"
    using assms(2) by (intro rhe_mono) simp
  ultimately show ?thesis using assms(1) by (simp add: timestamp_millis nat_mono)
qed

lemma timestamp_ms_field:
  "ms_field (timestamp sec) = zfill 3 (str_nat (ts_q sec mod 1000))"
proof -
  have b: "ts_q sec mod 1000 < 1000" by simp
  show ?thesis by (simp only: timestamp_shape ms_field_shape pad3_lt1000[OF b])
qed

lemma ts_q_mod: "0 \<le> sec \<Longrightarrow> ts_q sec mod 1000 = nat (round_half_even (sec * 1000) mod 1000)"
proof -
  assume "0 \<le> sec"
  have "int (ts_q sec mod 1000) = int (ts_q sec) mod 1000" by (simp add: zmod_int)
  also have "\<dots> = (round_half_even (sec * 1000) - 60000 * \<lfloor>sec / 60\<rfloor>) mod 1000"
    by (simp only: ts_q_eq)
  also have "\<dots> = round_half_even (sec * 1000) mod 1000"
  proof -
    have "(round_half_even (sec * 1000) + 1000 * (- (60 * \<lfloor>sec / 60\<rfloor>))) mod 1000
        = round_half_even (sec * 1000) mod 1000"
      by (rule mod_mult_self2)
    then show ?thesis by simp
  qed
  finally show ?thesis by simp
qed

lemma rhe_floor: "x - of_int \<lfloor>x\<rfloor> < 1 / 2 \<Longrightarrow> round_half_even x = \<lfloor>x\<rfloor>"
  by (simp only: rhe_unfold[of x] if_True)

lemma digit_char_less: "a < 10 \<Longrightarrow> b < 10 \<Longrightarrow> (digit_char a < digit_char b) = (a < b)"
  by (simp add: less_char_def of_char_digit_char)

lemma digit_char_inj: "a < 10 \<Longrightarrow> b < 10 \<Longrightarrow> (digit_char a = digit_char b) = (a = b)"
proof -
  assume a: "a < 10" and b: "b < 10"
  show ?thesis
  proof
    assume "digit_char a = digit_char b"
    then have "digit_val (digit_char a) = digit_val (digit_char b)" by simp
    then show "a = b" by (simp only: digit_val_digit_char[OF a] digit_val_digit_char[OF b])
  next
    assume "a = b"
    then show "digit_char a = digit_char b" by simp
  qed
qed

lemma digits_lex_less:
  fixes qa ra qb rb k :: nat
  assumes "ra < k" "rb < k"
  shows "(k * qa + ra < k * qb + rb) = (qa < qb \<or> qa = qb \<and> ra < rb)"
proof
  assume lt: "k * qa + ra < k * qb + rb"
  show "qa < qb \<or> qa = qb \<and> ra < rb"
  proof (cases "qa < qb")
    case True
    then show ?thesis by simp
  next
    case False
    show ?thesis
    proof (cases "qa = qb")
      case True
      then show ?thesis using lt by simp
    next
      case ne: False
      with False have "Suc qb \<le> qa" by simp
      then have "k * Suc qb \<le> k * qa" by (rule mult_le_mono2)
      then have "k * qb + k \<le> k * qa" by simp
      then show ?thesis using lt assms by linarith
    qed
  qed
next
  assume "qa < qb \<or> qa = qb \<and> ra < rb"
  then show "k * qa + ra < k * qb + rb"
  proof
    assume "qa < qb"
    then have "Suc qa \<le> qb" by simp
    then have "k * Suc qa \<le> k * qb" by (rule mult_le_mono2)
    then have "k * qa + k \<le> k * qb" by simp
    then show ?thesis using assms by linarith
  next
    assume "qa = qb \<and> ra < rb"
    then show ?thesis by simp
  qed
qed

lemma digits_lex_le:
  fixes qa ra qb rb k :: nat
  assumes "ra < k" "rb < k"
  shows "(k * qa + ra \<le> k * qb + rb) = (qa < qb \<or> qa = qb \<and> ra \<le> rb)"
proof -
  have "(k * qa + ra \<le> k * qb + rb) = (\<not> (k * qb + rb < k * qa + ra))" by (simp add: not_less)
  also have "\<dots> = (\<not> (qb < qa \<or> qb = qa \<and> rb < ra))"
    by (simp only: digits_lex_less[OF assms(2) assms(1)])
  also have "\<dots> = (qa < qb \<or> qa = qb \<and> ra \<le> rb)" by (auto simp: not_less)
  finally show ?thesis .
qed

lemma two_digit_less: "(a < b) = (a div 10 < b div 10 \<or> a div 10 = b div 10 \<and> a mod 10 < b mod (10::nat))"
proof -
  have "(10 * (a div 10) + a mod 10 < 10 * (b div 10) + b mod 10) =
     (a div 10 < b div 10 \<or> a div 10 = b div 10 \<and> a mod 10 < b mod 10)"
    by (rule digits_lex_less) simp_all
  then show ?thesis by simp
qed

lemma two_digit_eq: "(a = b) = (a div 10 = b div 10 \<and> a mod 10 = b mod (10::nat))"
  by (metis div_mult_mod_eq)

lemma split_q_le: "q1 \<le> q2 \<Longrightarrow> q1 div 1000 < q2 div 1000 \<or> q1 div 1000 = q2 div 1000 \<and> q1 mod 1000 \<le> q2 mod (1000::nat)"
proof -
  assume le: "q1 \<le> q2"
  have "(1000 * (q1 div 1000) + q1 mod 1000 \<le> 1000 * (q2 div 1000) + q2 mod 1000) =
     (q1 div 1000 < q2 div 1000 \<or> q1 div 1000 = q2 div 1000 \<and> q1 mod 1000 \<le> q2 mod 1000)"
    by (rule digits_lex_le) simp_all
  then show ?thesis using le by simp
qed

lemma three_digit_le:
  "(a \<le> b) = (a div 100 < b div 100 \<or> a div 100 = b div 100 \<and>
     (a div 10 mod 10 < b div 10 mod 10 \<or> a div 10 mod 10 = b div 10 mod 10 \<and> a mod 10 \<le> b mod (10::nat)))"
proof -
  have h: "n div 10 div 10 = n div 100" for n :: nat by (simp add: div_mult2_eq[symmetric])
  have 1: "(10 * (a div 10) + a mod 10 \<le> 10 * (b div 10) + b mod 10) =
     (a div 10 < b div 10 \<or> a div 10 = b div 10 \<and> a mod 10 \<le> b mod 10)"
    by (rule digits_lex_le) simp_all
  have 2: "(a div 10 < b div 10) = (a div 10 div 10 < b div 10 div 10 \<or>
      a div 10 div 10 = b div 10 div 10 \<and> a div 10 mod 10 < b div 10 mod 10)"
    by (rule two_digit_less)
  have 3: "(a div 10 = b div 10) = (a div 10 div 10 = b div 10 div 10 \<and> a div 10 mod 10 = b div 10 mod 10)"
    by (rule two_digit_eq)
  have "(a \<le> b) = (a div 10 < b div 10 \<or> a div 10 = b div 10 \<and> a mod 10 \<le> b mod 10)"
    using 1 by simp
  also have "\<dots> = (a div 100 < b div 100 \<or> a div 100 = b div 100 \<and>
     (a div 10 mod 10 < b div 10 mod 10 \<or> a div 10 mod 10 = b div 10 mod 10 \<and> a mod 10 \<le> b mod 10))"
    unfolding 2 3 h by blast
  finally show ?thesis .
qed

lemma pad2_cons_le:
  assumes "a < 100" "b < 100"
  shows "(digit_char (a div 10) # digit_char (a mod 10) # x \<le> digit_char (b div 10) # digit_char (b mod 10) # y)
     = (a < b \<or> a = b \<and> x \<le> y)"
proof -
  have d: "a div 10 < 10" "b div 10 < 10" "a mod 10 < 10" "b mod 10 < 10" using assms by simp_all
  show ?thesis
    by (simp only: Cons_le_Cons digit_char_less[OF d(1) d(2)] digit_char_less[OF d(3) d(4)]
        digit_char_inj[OF d(1) d(2)] digit_char_inj[OF d(3) d(4)] two_digit_less[of a b] two_digit_eq[of a b])
      blast
qed

lemma sep_cons_le: "(c # x \<le> c # y) = (x \<le> (y::string))"
  by simp

lemma pad3_le:
  assumes "a < 1000" "b < 1000"
  shows "([digit_char (a div 100), digit_char (a div 10 mod 10), digit_char (a mod 10)]
       \<le> [digit_char (b div 100), digit_char (b div 10 mod 10), digit_char (b mod 10)]) = (a \<le> b)"
proof -
  have d: "a div 100 < 10" "b div 100 < 10" "a div 10 mod 10 < 10" "b div 10 mod 10 < 10"
    "a mod 10 < 10" "b mod 10 < 10" using assms by simp_all
  have e: "(digit_char (a mod 10) \<le> digit_char (b mod 10)) = (a mod 10 \<le> b mod 10)"
    using digit_char_less[OF d(5) d(6)] digit_char_inj[OF d(5) d(6)] by (auto simp: le_less)
  have n: "([] :: string) \<le> []" by simp
  show ?thesis
    by (simp only: Cons_le_Cons digit_char_less[OF d(1) d(2)] digit_char_less[OF d(3) d(4)]
        digit_char_less[OF d(5) d(6)] digit_char_inj[OF d(1) d(2)] digit_char_inj[OF d(3) d(4)]
        digit_char_inj[OF d(5) d(6)] three_digit_le[of a b] n)
      (auto simp: le_less)
qed

lemma timestamp_shape_lt100:
  assumes "0 \<le> sec" "sec < 360000"
  shows "timestamp sec =
     digit_char (nat \<lfloor>sec / 3600\<rfloor> div 10) # digit_char (nat \<lfloor>sec / 3600\<rfloor> mod 10) #
     CHR '':'' # digit_char (ts_min sec div 10) # digit_char (ts_min sec mod 10) #
     CHR '':'' # digit_char (ts_q sec div 1000 div 10) # digit_char (ts_q sec div 1000 mod 10) #
     CHR '','' # [digit_char (ts_q sec mod 1000 div 100), digit_char (ts_q sec mod 1000 div 10 mod 10),
      digit_char (ts_q sec mod 1000 mod 10)]"
proof -
  have h: "0 \<le> \<lfloor>sec / 3600\<rfloor>" using assms(1) by simp
  have "sec / 3600 < 100" using assms(2) by simp
  then have "\<lfloor>sec / 3600\<rfloor> < 100" by linarith
  then have lt: "nat \<lfloor>sec / 3600\<rfloor> < 100" by linarith
  show ?thesis
    by (simp only: timestamp_shape format_d02_nonneg[OF h] pad2_lt100[OF lt]) simp
qed

lemma timestamp_key_mono:
  assumes "t1 \<le> t2"
  shows "\<lfloor>t1 / 3600\<rfloor> < \<lfloor>t2 / 3600\<rfloor> \<or> \<lfloor>t1 / 3600\<rfloor> = \<lfloor>t2 / 3600\<rfloor> \<and>
     (ts_min t1 < ts_min t2 \<or> ts_min t1 = ts_min t2 \<and> ts_q t1 \<le> ts_q t2)"
proof -
  have H: "\<lfloor>t1 / 3600\<rfloor> \<le> \<lfloor>t2 / 3600\<rfloor>" using assms by (intro floor_mono) simp
  have F: "\<lfloor>t1 / 60\<rfloor> \<le> \<lfloor>t2 / 60\<rfloor>" using assms by (intro floor_mono) simp
  show ?thesis
  proof (cases "\<lfloor>t1 / 3600\<rfloor> = \<lfloor>t2 / 3600\<rfloor>")
    case False
    then show ?thesis using H by simp
  next
    case heq: True
    show ?thesis
    proof (cases "ts_min t1 = ts_min t2")
      case False
      have "int (ts_min t1) \<le> int (ts_min t2)" using F heq by (simp only: ts_min_eq)
      then show ?thesis using False heq by simp
    next
      case meq: True
      have "int (ts_min t1) = int (ts_min t2)" using meq by simp
      then have feq: "\<lfloor>t1 / 60\<rfloor> = \<lfloor>t2 / 60\<rfloor>" using heq by (simp only: ts_min_eq)
      have "py_mod t1 60 \<le> py_mod t2 60" using assms by (simp add: py_mod_def feq)
      then have "round_half_even (py_mod t1 60 * 1000) \<le> round_half_even (py_mod t2 60 * 1000)"
        by (intro rhe_mono) simp
      then have "ts_q t1 \<le> ts_q t2" by (simp add: ts_q_def nat_mono)
      then show ?thesis using heq meq by simp
    qed
  qed
qed

lemma timestamp_lex_mono:
  assumes "0 \<le> t1" "t1 \<le> t2" "t2 < 360000"
  shows "timestamp t1 \<le> timestamp t2"
proof -
  have t2: "0 \<le> t2" and t1: "t1 < 360000" using assms by simp_all
  define H1 where "H1 = nat \<lfloor>t1 / 3600\<rfloor>"
  define H2 where "H2 = nat \<lfloor>t2 / 3600\<rfloor>"
  have h1: "0 \<le> \<lfloor>t1 / 3600\<rfloor>" using assms(1) by simp
  have h2: "0 \<le> \<lfloor>t2 / 3600\<rfloor>" using t2 by simp
  have "t1 / 3600 < 100" "t2 / 3600 < 100" using t1 assms(3) by simp_all
  then have "\<lfloor>t1 / 3600\<rfloor> < 100" "\<lfloor>t2 / 3600\<rfloor> < 100" by linarith+
  then have H: "H1 < 100" "H2 < 100" unfolding H1_def H2_def by linarith+
  have M: "ts_min t1 < 100" "ts_min t2 < 100" using ts_min_lt60[of t1] ts_min_lt60[of t2] by simp_all
  have S: "ts_q t1 div 1000 < 100" "ts_q t2 div 1000 < 100" using ts_q_le[of t1] ts_q_le[of t2] by simp_all
  have ms: "ts_q t1 mod 1000 < 1000" "ts_q t2 mod 1000 < 1000" by simp_all
  have hlt: "(H1 < H2) = (\<lfloor>t1 / 3600\<rfloor> < \<lfloor>t2 / 3600\<rfloor>)"
    unfolding H1_def H2_def using h1 h2 by linarith
  have heq: "(H1 = H2) = (\<lfloor>t1 / 3600\<rfloor> = \<lfloor>t2 / 3600\<rfloor>)"
    unfolding H1_def H2_def using h1 h2 by linarith
  have k0: "H1 < H2 \<or> H1 = H2 \<and> (ts_min t1 < ts_min t2 \<or> ts_min t1 = ts_min t2 \<and> ts_q t1 \<le> ts_q t2)"
    unfolding hlt heq by (rule timestamp_key_mono[OF assms(2)])
  have key: "H1 < H2 \<or> H1 = H2 \<and> (ts_min t1 < ts_min t2 \<or> ts_min t1 = ts_min t2 \<and>
     (ts_q t1 div 1000 < ts_q t2 div 1000 \<or> ts_q t1 div 1000 = ts_q t2 div 1000 \<and>
        ts_q t1 mod 1000 \<le> ts_q t2 mod 1000))"
    using k0 split_q_le[of "ts_q t1" "ts_q t2"] by blast
  show ?thesis
    unfolding timestamp_shape_lt100[OF assms(1) t1] timestamp_shape_lt100[OF t2 assms(3)]
      H1_def[symmetric] H2_def[symmetric]
    using key
    by (simp only: pad2_cons_le[OF H] pad2_cons_le[OF M] pad2_cons_le[OF S] pad3_le[OF ms] sep_cons_le)
qed

subsection \<open>The writers, the translation loop and the stages\<close>

lemma f_write_existing:
  "files w f = Some c \<Longrightarrow> f_write f d w = w\<lparr>files := (files w)(f \<mapsto> c @ d)\<rparr>"
  by (simp add: f_write_def)

lemma time_line_ok:
  "has_times seg \<Longrightarrow>
   time_line seg = Inr (timestamp (the_float (seg ''start'')) @ '' --> '' @ timestamp (the_float (seg ''end'')))"
proof -
  assume h: "has_times seg"
  obtain a where a: "seg ''start'' = Some (Float a)"
    using h by (cases "seg ''start''" rule: is_float.cases) (auto simp: has_times_def)
  obtain b where b: "seg ''end'' = Some (Float b)"
    using h by (cases "seg ''end''" rule: is_float.cases) (auto simp: has_times_def)
  show ?thesis by (simp add: time_line_def getitem_def a b)
qed

lemma selected_text_ok:
  "has_text key seg \<Longrightarrow> selected_text key seg = Inr (strip (the_str (seg key)))"
proof -
  assume h: "has_text key seg"
  obtain s where s: "seg key = Some (Str s)"
    using h by (cases "seg key" rule: is_str.cases) (auto simp: has_text_def)
  show ?thesis by (simp add: selected_text_def getitem_def s)
qed

lemma selected_text_absent: "seg key = None \<Longrightarrow> selected_text key seg = Inl (KeyError key)"
  by (simp add: selected_text_def getitem_def)

lemma zh_text_ok:
  assumes "text_if_present ''original_text'' seg" and "text_if_present ''text'' seg"
  shows "zh_text seg = Inr (strip (fallback_text seg))"
proof (cases "seg ''original_text''")
  case None
  show ?thesis
  proof (cases "seg ''text''")
    case n2: None
    show ?thesis by (simp add: zh_text_def dict_get_def fallback_text_def None n2)
  next
    case (Some v)
    then obtain s where s: "seg ''text'' = Some (Str s)"
      using assms(2) by (cases "seg ''text''" rule: is_str.cases) (auto simp: text_if_present_def)
    show ?thesis by (simp add: zh_text_def dict_get_def fallback_text_def None s)
  qed
next
  case (Some v)
  then obtain s where s: "seg ''original_text'' = Some (Str s)"
    using assms(1) by (cases "seg ''original_text''" rule: is_str.cases) (auto simp: text_if_present_def)
  show ?thesis by (simp add: zh_text_def dict_get_def fallback_text_def s)
qed

lemma write_blocks_ok:
  assumes "\<forall>seg \<in> set segs. has_times seg \<and> text_of seg = Inr (T seg)"
      and "files w f = Some c"
  shows "write_blocks text_of f i segs w =
     (Inr (), w\<lparr>files := (files w)(f \<mapsto> c @
        concat (map (\<lambda>(j, seg). srt_block j (timestamp (the_float (seg ''start'')))
                      (timestamp (the_float (seg ''end''))) (T seg)) (enumerate i segs)))\<rparr>)"
  using assms
proof (induction segs arbitrary: i w c)
  case Nil
  have "(files w)(f \<mapsto> c) = files w" using Nil(2) by (rule map_upd_triv)
  then show ?case by simp
next
  case (Cons seg segs)
  have tl: "time_line seg = Inr (timestamp (the_float (seg ''start'')) @ '' --> '' @ timestamp (the_float (seg ''end'')))"
    using Cons.prems(1) by (simp add: time_line_ok)
  have tx: "text_of seg = Inr (T seg)" using Cons.prems(1) by simp
  define blk where "blk = srt_block i (timestamp (the_float (seg ''start'')))
                      (timestamp (the_float (seg ''end''))) (T seg)"
  define w3 where "w3 = w\<lparr>files := (files w)(f \<mapsto> c @ blk)\<rparr>"
  have step: "f_write f (T seg @ nl @ nl)
      (f_write f ((timestamp (the_float (seg ''start'')) @ '' --> '' @ timestamp (the_float (seg ''end''))) @ nl)
         (f_write f (str_nat i @ nl) w)) = w3"
    using Cons.prems(2) by (simp add: f_write_def w3_def blk_def srt_block_def)
  have f3: "files w3 f = Some (c @ blk)" by (simp add: w3_def)
  have rest: "\<forall>s \<in> set segs. has_times s \<and> text_of s = Inr (T s)" using Cons.prems(1) by simp
  have "write_blocks text_of f i (seg # segs) w = write_blocks text_of f (Suc i) segs w3"
    by (simp only: write_blocks.simps Let_def tl tx sum.case step)
  also have "\<dots> = (Inr (), w3\<lparr>files := (files w3)(f \<mapsto> (c @ blk) @
        concat (map (\<lambda>(j, seg). srt_block j (timestamp (the_float (seg ''start'')))
                      (timestamp (the_float (seg ''end''))) (T seg)) (enumerate (Suc i) segs)))\<rparr>)"
    by (rule Cons.IH[OF rest f3])
  also have "\<dots> = (Inr (), w\<lparr>files := (files w)(f \<mapsto> (c @ blk) @
        concat (map (\<lambda>(j, seg). srt_block j (timestamp (the_float (seg ''start'')))
                      (timestamp (the_float (seg ''end''))) (T seg)) (enumerate (Suc i) segs)))\<rparr>)"
    by (simp add: w3_def)
  also have "(c @ blk) @
        concat (map (\<lambda>(j, seg). srt_block j (timestamp (the_float (seg ''start'')))
                      (timestamp (the_float (seg ''end''))) (T seg)) (enumerate (Suc i) segs)) =
      c @ concat (map (\<lambda>(j, seg). srt_block j (timestamp (the_float (seg ''start'')))
                      (timestamp (the_float (seg ''end''))) (T seg)) (enumerate i (seg # segs)))"
    by (simp add: blk_def)
  finally show ?case .
qed

lemma save_with_ok:
  assumes "\<not> open_fails env filename"
      and "\<forall>seg \<in> set segments. has_times seg \<and> text_of seg = Inr (T seg)"
  shows "(case open_w env filename w of
        (Inl e, w') \<Rightarrow> (Inl e, w')
      | (Inr u, w') \<Rightarrow> write_blocks text_of filename 1 segments w') =
     (Inr (), w\<lparr>files := (files w)(filename \<mapsto> caption_file T segments),
                trace := trace w @ [OpenW filename]\<rparr>)"
proof -
  define w1 where "w1 = w\<lparr>files := (files w)(filename \<mapsto> []), trace := trace w @ [OpenW filename]\<rparr>"
  have o: "open_w env filename w = (Inr (), w1)" using assms(1) by (simp add: open_w_def w1_def)
  have f1: "files w1 filename = Some []" by (simp add: w1_def)
  show ?thesis
    by (simp add: o write_blocks_ok[OF assms(2) f1] caption_file_def) (simp add: w1_def)
qed


lemma not_isl_obtain: "\<not> isl x \<Longrightarrow> x = Inr (projr x)"
  by (cases x) simp_all

lemma translate_loop_ok:
  assumes "\<forall>seg \<in> set segs. has_times seg \<and> has_text ''text'' seg \<and>
             \<not> isl (translation_of env src dst seg)"
  shows "translate_loop env src dst i segs acc w =
     (Inr (acc @ map (\<lambda>(j, seg). srt_block j (timestamp (the_float (seg ''start'')))
                        (timestamp (the_float (seg ''end''))) (projr (translation_of env src dst seg)))
                     (enumerate (Suc i) segs)),
      w\<lparr>trace := trace w @ map (\<lambda>seg. Translate (strip (the_str (seg ''text''))) src dst) segs\<rparr>)"
  using assms
proof (induction segs arbitrary: i acc w)
  case Nil
  then show ?case by simp
next
  case (Cons seg segs)
  define en_text where "en_text = strip (the_str (seg ''text''))"
  define tr where "tr = projr (translation_of env src dst seg)"
  define line where "line = timestamp (the_float (seg ''start'')) @ '' --> '' @ timestamp (the_float (seg ''end''))"
  define w1 where "w1 = w\<lparr>trace := trace w @ [Translate en_text src dst]\<rparr>"
  have st: "selected_text ''text'' seg = Inr en_text"
    using Cons.prems by (simp add: selected_text_ok en_text_def)
  have "\<not> isl (translation_of env src dst seg)" using Cons.prems by simp
  then have "translation_of env src dst seg = Inr tr" unfolding tr_def by (rule not_isl_obtain)
  then have ar: "argos_translate env en_text src dst = Inr tr"
    by (simp add: translation_of_def en_text_def)
  have tl: "time_line seg = Inr line" using Cons.prems by (simp add: time_line_ok line_def)
  have blk: "str_nat (i + 1) @ nl @ line @ nl @ tr @ nl @ nl =
      srt_block (Suc i) (timestamp (the_float (seg ''start''))) (timestamp (the_float (seg ''end''))) tr"
    by (simp add: srt_block_def line_def)
  have rest: "\<forall>s \<in> set segs. has_times s \<and> has_text ''text'' s \<and> \<not> isl (translation_of env src dst s)"
    using Cons.prems by simp
  have "translate_loop env src dst i (seg # segs) acc w =
      translate_loop env src dst (Suc i) segs
        (acc @ [srt_block (Suc i) (timestamp (the_float (seg ''start''))) (timestamp (the_float (seg ''end''))) tr]) w1"
    by (simp only: translate_loop.simps st sum.case Let_def w1_def[symmetric] ar tl blk)
  also have "\<dots> = (Inr ((acc @ [srt_block (Suc i) (timestamp (the_float (seg ''start''))) (timestamp (the_float (seg ''end''))) tr]) @
        map (\<lambda>(j, seg). srt_block j (timestamp (the_float (seg ''start'')))
                        (timestamp (the_float (seg ''end''))) (projr (translation_of env src dst seg)))
                     (enumerate (Suc (Suc i)) segs)),
      w1\<lparr>trace := trace w1 @ map (\<lambda>seg. Translate (strip (the_str (seg ''text''))) src dst) segs\<rparr>)"
    by (rule Cons.IH[OF rest])
  also have "\<dots> = (Inr (acc @ map (\<lambda>(j, seg). srt_block j (timestamp (the_float (seg ''start'')))
                        (timestamp (the_float (seg ''end''))) (projr (translation_of env src dst seg)))
                     (enumerate (Suc i) (seg # segs))),
      w\<lparr>trace := trace w @ map (\<lambda>seg. Translate (strip (the_str (seg ''text''))) src dst) (seg # segs)\<rparr>)"
    by (simp add: w1_def tr_def en_text_def)
  finally show ?case .
qed

lemma translate_and_save_ok:
  assumes "\<not> open_fails env filename"
      and "\<forall>seg \<in> set segments. has_times seg \<and> has_text ''text'' seg \<and>
             \<not> isl (translation_of env src dst seg)"
  shows "translate_and_save env segments src dst filename w =
     (Inr (), w\<lparr>files := (files w)(filename \<mapsto>
                  caption_file (\<lambda>seg. projr (translation_of env src dst seg)) segments),
                trace := trace w @ map (\<lambda>seg. Translate (strip (the_str (seg ''text''))) src dst) segments
                           @ [OpenW filename]\<rparr>)"
  by (simp add: translate_and_save_def translate_loop_ok[OF assms(2)] open_w_def assms(1)
      f_write_def caption_file_def)

lemma translate_loop_frame:
  "files (snd (translate_loop env src dst i segs acc w)) = files w \<and>
   filter is_open_w (trace (snd (translate_loop env src dst i segs acc w))) = filter is_open_w (trace w)"
proof (induction segs arbitrary: i acc w)
  case Nil
  then show ?case by simp
next
  case (Cons seg segs)
  show ?case
  proof (cases "selected_text ''text'' seg")
    case (Inl e)
    then show ?thesis by simp
  next
    case st: (Inr en_text)
    define w1 where "w1 = w\<lparr>trace := trace w @ [Translate en_text src dst]\<rparr>"
    have w1: "files w1 = files w" "filter is_open_w (trace w1) = filter is_open_w (trace w)"
      by (simp_all add: w1_def)
    show ?thesis
    proof (cases "argos_translate env en_text src dst")
      case (Inl e)
      then show ?thesis using st w1 by (simp add: w1_def)
    next
      case ar: (Inr tr)
      show ?thesis
      proof (cases "time_line seg")
        case (Inl e)
        then show ?thesis using st ar w1 by (simp add: w1_def)
      next
        case (Inr line)
        have "translate_loop env src dst i (seg # segs) acc w =
            translate_loop env src dst (Suc i) segs (acc @ [str_nat (i + 1) @ nl @ line @ nl @ tr @ nl @ nl]) w1"
          by (simp only: translate_loop.simps st sum.case Let_def w1_def[symmetric] ar Inr)
        then show ?thesis
          using Cons.IH[of "Suc i" "acc @ [str_nat (i + 1) @ nl @ line @ nl @ tr @ nl @ nl]" w1] w1
          by simp
      qed
    qed
  qed
qed

lemma translate_loop_fails:
  assumes "\<exists>seg \<in> set segs. has_text ''text'' seg \<and> isl (translation_of env src dst seg)"
  shows "isl (fst (translate_loop env src dst i segs acc w))"
  using assms
proof (induction segs arbitrary: i acc w)
  case Nil
  then show ?case by simp
next
  case (Cons seg segs)
  show ?case
  proof (cases "selected_text ''text'' seg")
    case (Inl e)
    then show ?thesis by simp
  next
    case st: (Inr en_text)
    show ?thesis
    proof (cases "argos_translate env en_text src dst")
      case (Inl e)
      then show ?thesis using st by simp
    next
      case ar: (Inr tr)
      show ?thesis
      proof (cases "time_line seg")
        case (Inl e)
        then show ?thesis using st ar by simp
      next
        case (Inr line)
        have "\<not> (has_text ''text'' seg \<and> isl (translation_of env src dst seg))"
        proof
          assume h: "has_text ''text'' seg \<and> isl (translation_of env src dst seg)"
          then have "selected_text ''text'' seg = Inr (strip (the_str (seg ''text'')))"
            by (simp add: selected_text_ok)
          then have "en_text = strip (the_str (seg ''text''))" using st by simp
          then have "translation_of env src dst seg = Inr tr" using ar by (simp add: translation_of_def)
          then show False using h by simp
        qed
        then have rest: "\<exists>s \<in> set segs. has_text ''text'' s \<and> isl (translation_of env src dst s)"
          using Cons.prems by auto
        show ?thesis using st ar Inr Cons.IH[OF rest] by simp
      qed
    qed
  qed
qed

lemma translate_and_save_fails:
  assumes "isl (fst (translate_loop env src dst 0 segments [] w))"
  shows "isl (fst (translate_and_save env segments src dst filename w)) \<and>
         files (snd (translate_and_save env segments src dst filename w)) = files w \<and>
         filter is_open_w (trace (snd (translate_and_save env segments src dst filename w))) =
           filter is_open_w (trace w)"
proof (cases "translate_loop env src dst 0 segments [] w")
  case (Pair r w1)
  then obtain e where r: "r = Inl e" using assms by (cases r) simp_all
  have "files w1 = files w" "filter is_open_w (trace w1) = filter is_open_w (trace w)"
    using translate_loop_frame[of env src dst 0 segments "[]" w] Pair by simp_all
  then show ?thesis by (simp add: translate_and_save_def Pair r)
qed

lemma run_tool_trace: "filter is_open_w (trace (snd (run_tool env args w))) = filter is_open_w (trace w)"
  by (simp add: run_tool_def Let_def split: prod.splits option.splits)

lemma download_video_trace:
  "filter is_open_w (trace (snd (download_video cfg env w))) = filter is_open_w (trace w)"
  by (simp add: download_video_def run_tool_trace)

lemma extract_audio_trace:
  "filter is_open_w (trace (snd (extract_audio cfg env w))) = filter is_open_w (trace w)"
  by (simp add: extract_audio_def run_tool_trace)

lemma main_recognition_failure:
  assumes d: "download_video cfg env w0 = (Inr (), w1)"
      and x: "(if SAVE_AUDIO cfg then extract_audio cfg env w1 else (Inr (), w1)) = (Inr (), w2)"
      and r: "whisper_transcribe env (MODEL cfg) (AUDIO_NAME (PROJECT_NAME cfg)) (files w2) = Inl e"
  shows "main cfg env w0 =
     (Inl e, w2\<lparr>trace := trace w2 @ [Transcribe (MODEL cfg) (AUDIO_NAME (PROJECT_NAME cfg))]\<rparr>)"
  by (simp only: main_def d x recognize_and_translate_en_def r prod.case sum.case)

lemma pre_recognition_trace:
  assumes d: "download_video cfg env w0 = (Inr (), w1)"
      and x: "(if SAVE_AUDIO cfg then extract_audio cfg env w1 else (Inr (), w1)) = (Inr (), w2)"
  shows "filter is_open_w (trace w2) = filter is_open_w (trace w0)"
proof -
  have 1: "filter is_open_w (trace w1) = filter is_open_w (trace w0)"
    using download_video_trace[of cfg env w0] d by simp
  have 2: "filter is_open_w (trace w2) = filter is_open_w (trace w1)"
  proof (cases "SAVE_AUDIO cfg")
    case True
    then show ?thesis using extract_audio_trace[of cfg env w1] x by simp
  next
    case False
    then show ?thesis using x by simp
  qed
  show ?thesis using 1 2 by simp
qed

subsection \<open>The timestamp formatter: pattern and order (C3)\<close>

text \<open>
  C3, as stated, reads the order of the outputs as the order of strings. It fails once the
  hours field needs a third digit: one second before 100 hours the formatter prints
  \<^verbatim>\<open>99:59:59,000\<close>, at 100 hours \<^verbatim>\<open>100:00:00,000\<close>, and the second string is the
  smaller one.
\<close>

theorem C3_string_order_counterexample:
  "(0::real) \<le> 359999 \<and> (359999::real) \<le> 360000 \<and>
   timestamp 359999 = ''99:59:59,000'' \<and> timestamp 360000 = ''100:00:00,000'' \<and>
   \<not> timestamp 359999 \<le> timestamp 360000"
  by (simp add: ts_eval)

text \<open>
  C3, amended: for every \<open>t \<ge> 0\<close> the output matches the caption clock pattern; while
  \<open>t\<close> stays below \<open>2\<^sup>5\<^sup>3 = 9007199254740992\<close> seconds, where the floor division of floats
  is exact, the time the output denotes never decreases as \<open>t\<close> grows; and below 100
  hours, where the hours field has two digits, the output never decreases as a string
  either.
\<close>

theorem C3_timestamp_pattern_and_order:
  assumes "0 \<le> t1" and "t1 \<le> t2"
  shows "srt_pattern (timestamp t1) \<and> srt_pattern (timestamp t2) \<and>
         (t2 < 9007199254740992 \<longrightarrow> srt_millis (timestamp t1) \<le> srt_millis (timestamp t2)) \<and>
         (t2 < 360000 \<longrightarrow> timestamp t1 \<le> timestamp t2)"
proof -
  have t2: "0 \<le> t2" using assms by simp
  show ?thesis
    using timestamp_pattern[OF assms(1)] timestamp_pattern[OF t2]
      timestamp_millis_mono[OF assms] timestamp_lex_mono[OF assms]
    by blast
qed

theorem C3_timestamp_pattern_and_order_witness:
  "(0::real) \<le> 5 / 4 \<and> (5 / 4 :: real) \<le> 14645 / 4 \<and>
   (14645 / 4 :: real) < 9007199254740992 \<and> (14645 / 4 :: real) < 360000 \<and>
   srt_pattern (timestamp (5 / 4)) \<and> srt_pattern (timestamp (14645 / 4)) \<and>
   srt_millis (timestamp (5 / 4)) \<le> srt_millis (timestamp (14645 / 4)) \<and>
   timestamp (5 / 4) \<le> timestamp (14645 / 4)"
  using C3_timestamp_pattern_and_order [of "5 / 4" "14645 / 4"] by simp

subsection \<open>The timestamp formatter: milliseconds (C4)\<close>

text \<open>
  C4, as stated, says the milliseconds field is \<open>\<lfloor>1000 t\<rfloor> mod 1000\<close>. The input
  \<open>1/1024\<close> (a double: 0.0009765625) lies strictly between 0 ms and 1 ms; the formatter
  prints \<^verbatim>\<open>00:00:00,001\<close>, rounding up, where the claim asks for \<^verbatim>\<open>000\<close>.
\<close>

theorem C4_truncation_counterexample:
  "(0::real) \<le> 1 / 1024 \<and> timestamp (1 / 1024) = ''00:00:00,001'' \<and>
   ms_field (timestamp (1 / 1024)) = ''001'' \<and>
   zfill 3 (str_nat (nat (\<lfloor>(1 / 1024 :: real) * 1000\<rfloor> mod 1000))) = ''000'' \<and>
   nat_of_digits (ms_field (timestamp (1 / 1024))) \<noteq> nat (\<lfloor>(1 / 1024 :: real) * 1000\<rfloor> mod 1000)"
  by (simp add: ts_eval ms_field_def nat_of_digits_def digit_val_def)

text \<open>
  C4, amended: for every \<open>t \<ge> 0\<close> the formatter rounds \<open>t\<close> to the nearest millisecond,
  a tie going to the even one: the milliseconds field is the three-digit print of
  \<open>round (1000 t) mod 1000\<close>. It is \<open>\<lfloor>1000 t\<rfloor> mod 1000\<close> whenever \<open>1000 t\<close> lies less than
  one half above an integer.
\<close>

theorem C4_timestamp_rounds_to_millisecond:
  assumes "0 \<le> t"
  shows "ms_field (timestamp t) = zfill 3 (str_nat (nat (round_half_even (t * 1000) mod 1000))) \<and>
         nat_of_digits (ms_field (timestamp t)) = nat (round_half_even (t * 1000) mod 1000) \<and>
         (t * 1000 - of_int \<lfloor>t * 1000\<rfloor> < 1 / 2 \<longrightarrow>
            nat_of_digits (ms_field (timestamp t)) = nat (\<lfloor>t * 1000\<rfloor> mod 1000))"
proof -
  have a: "ms_field (timestamp t) = zfill 3 (str_nat (nat (round_half_even (t * 1000) mod 1000)))"
    by (simp only: timestamp_ms_field ts_q_mod[OF assms])
  have b: "nat_of_digits (ms_field (timestamp t)) = nat (round_half_even (t * 1000) mod 1000)"
    by (simp only: a nat_of_digits_zfill nat_of_digits_str_nat)
  have c: "nat_of_digits (ms_field (timestamp t)) = nat (\<lfloor>t * 1000\<rfloor> mod 1000)"
    if "t * 1000 - of_int \<lfloor>t * 1000\<rfloor> < 1 / 2"
    by (simp only: b rhe_floor[OF that])
  show ?thesis using a b c by blast
qed

theorem C4_timestamp_rounds_to_millisecond_witness:
  "(0::real) \<le> 14645 / 4 \<and>
   ms_field (timestamp (14645 / 4)) =
     zfill 3 (str_nat (nat (round_half_even ((14645 / 4) * 1000) mod 1000))) \<and>
   nat_of_digits (ms_field (timestamp (14645 / 4))) = nat (round_half_even ((14645 / 4) * 1000) mod 1000) \<and>
   ((14645 / 4 :: real) * 1000 - of_int \<lfloor>(14645 / 4 :: real) * 1000\<rfloor> < 1 / 2) \<and>
   nat_of_digits (ms_field (timestamp (14645 / 4))) = nat (\<lfloor>(14645 / 4 :: real) * 1000\<rfloor> mod 1000)"
proof -
  have h: "(0::real) \<le> 14645 / 4" by simp
  have f: "(14645 / 4 :: real) * 1000 - of_int \<lfloor>(14645 / 4 :: real) * 1000\<rfloor> < 1 / 2" by simp
  show ?thesis using C4_timestamp_rounds_to_millisecond [OF h] h f by blast
qed

subsection \<open>The timestamp formatter on a negative input (C5)\<close>

text \<open>
  C5, as stated, says a negative input makes the formatter fail. The code has no check
  of its argument: on \<open>-1.5\<close> it returns the string \<^verbatim>\<open>-1:59:58,500\<close>.
\<close>

theorem C5_negative_input_counterexample:
  "(- 3 / 2 :: real) < 0 \<and> timestamp_call (Float (- 3 / 2)) = Inr ''-1:59:58,500''"
  by (simp add: ts_eval)

text \<open>
  C5, amended: for every negative input the formatter does not fail; it returns a string
  that begins with a minus sign (the hours are \<open>\<lfloor>t / 3600\<rfloor>\<close>, at most \<open>-1\<close>, printed with
  their sign) and so does not match the caption clock pattern.
\<close>

theorem C5_negative_input_returns:
  assumes "t < 0"
  shows "timestamp_call (Float t) = Inr (timestamp t) \<and> hd (timestamp t) = CHR ''-'' \<and>
         \<not> srt_pattern (timestamp t)"
  using timestamp_neg_head[OF assms] timestamp_neg_no_pattern[OF assms] by simp

theorem C5_negative_input_returns_witness:
  "(- 3 / 2 :: real) < 0 \<and> timestamp_call (Float (- 3 / 2)) = Inr (timestamp (- 3 / 2)) \<and>
   hd (timestamp (- 3 / 2)) = CHR ''-'' \<and> \<not> srt_pattern (timestamp (- 3 / 2))"
proof -
  have h: "(- 3 / 2 :: real) < 0" by simp
  show ?thesis using C5_negative_input_returns [OF h] h by blast
qed

subsection \<open>Derived file names (C9)\<close>

lemma name_form_intro: "name_form project ext (project @ ''_'' @ kind @ ''.'' @ ext)"
  by (simp add: name_form_def)

lemma name_form_elim:
  assumes "name_form project ext name"
  shows "\<exists>kind. name = project @ ''_'' @ kind @ ''.'' @ ext"
proof -
  define k where "k = length name - (length ext + 1) - (length project + 1)"
  have len: "length project + length ext + 2 \<le> length name"
    and pre: "take (length project + 1) name = project @ ''_''"
    and suf: "drop (length name - (length ext + 1)) name = ''.'' @ ext"
    using assms by (simp_all add: name_form_def)
  have e: "k + (length project + 1) = length name - (length ext + 1)"
    using len unfolding k_def by linarith
  have "drop k (drop (length project + 1) name) = drop (length name - (length ext + 1)) name"
    by (simp only: drop_drop e)
  then have "drop (length project + 1) name = take k (drop (length project + 1) name) @ ''.'' @ ext"
    using suf append_take_drop_id[of k "drop (length project + 1) name"] by simp
  moreover have "name = take (length project + 1) name @ drop (length project + 1) name"
    by simp
  ultimately have "name = project @ ''_'' @ take k (drop (length project + 1) name) @ ''.'' @ ext"
    using pre by (metis append.assoc)
  then show ?thesis by blast
qed

lemma video_name_not_form: "\<not> name_form project ext (VIDEO_NAME project)"
  by (simp add: name_form_def VIDEO_NAME_def)

text \<open>
  C9, as stated, gives every derived name the form \<^verbatim>\<open><project>_<kind>.<ext>\<close>. The video
  name is the project identifier followed directly by \<^verbatim>\<open>.mp4\<close>, with no underscore and
  no kind.
\<close>

theorem C9_video_name_counterexample:
  "VIDEO_NAME ''my_video'' = ''my_video.mp4'' \<and> \<not> name_form ''my_video'' ''mp4'' (VIDEO_NAME ''my_video'')"
  by (simp add: name_form_def VIDEO_NAME_def)

text \<open>
  C9, amended: for every project identifier \<open>P\<close> the video output is named \<open>P.mp4\<close>; the
  audio output and every caption output are named \<^verbatim>\<open>P_<kind>.<ext>\<close>, with extension
  \<^verbatim>\<open>wav\<close> for the audio and \<^verbatim>\<open>srt\<close> for every caption.
\<close>

theorem C9_derived_file_names:
  "VIDEO_NAME P = P @ ''.mp4'' \<and> \<not> name_form P ''mp4'' (VIDEO_NAME P) \<and>
   AUDIO_NAME P = P @ ''_'' @ ''audio'' @ ''.'' @ ''wav'' \<and> name_form P ''wav'' (AUDIO_NAME P) \<and>
   name_form P ''srt'' (ZH_SUB P) \<and> name_form P ''srt'' (EN_SUB P) \<and>
   name_form P ''srt'' (RU_SUB P) \<and> name_form P ''srt'' (FR_SUB P) \<and>
   name_form P ''srt'' (ES_SUB P) \<and> name_form P ''srt'' (DE_SUB P)"
proof -
  have "name_form P ''wav'' (P @ ''_'' @ ''audio'' @ ''.'' @ ''wav'')"
       "name_form P ''srt'' (P @ ''_'' @ ''zh'' @ ''.'' @ ''srt'')"
       "name_form P ''srt'' (P @ ''_'' @ ''en'' @ ''.'' @ ''srt'')"
       "name_form P ''srt'' (P @ ''_'' @ ''ru'' @ ''.'' @ ''srt'')"
       "name_form P ''srt'' (P @ ''_'' @ ''fr'' @ ''.'' @ ''srt'')"
       "name_form P ''srt'' (P @ ''_'' @ ''es'' @ ''.'' @ ''srt'')"
       "name_form P ''srt'' (P @ ''_'' @ ''de'' @ ''.'' @ ''srt'')"
    by (rule name_form_intro)+
  then show ?thesis
    using video_name_not_form[of P "''mp4''"]
    by (simp add: VIDEO_NAME_def AUDIO_NAME_def ZH_SUB_def EN_SUB_def RU_SUB_def FR_SUB_def
        ES_SUB_def DE_SUB_def)
qed

theorem C9_derived_file_names_witness:
  "VIDEO_NAME ''my_video'' = ''my_video'' @ ''.mp4'' \<and>
   name_form ''my_video'' ''wav'' (AUDIO_NAME ''my_video'') \<and>
   name_form ''my_video'' ''srt'' (RU_SUB ''my_video'')"
  using C9_derived_file_names [of "''my_video''"] by blast

subsection \<open>Running the model on concrete inputs\<close>

lemmas run_eval = save_subtitles_def save_zh_subtitles_def translate_and_save_def open_w_def
  f_write_def time_line_def getitem_def selected_text_def zh_text_def dict_get_def strip_def
  is_space_def demo_env_def demo_world_def demo_segment_def demo_config_def Let_def
  download_video_def extract_audio_def run_tool_def path_exists_def
  VIDEO_NAME_def AUDIO_NAME_def has_times_def has_text_def text_if_present_def
  translation_of_def

subsection \<open>The subtitle writer (C1)\<close>



subsection \<open>A segment without the selected text (C2)\<close>

text \<open>
  C2, as stated, holds of every subtitle writer. \<^verbatim>\<open>save_subtitles\<close> reads the selected
  key with \<^verbatim>\<open>seg[text_key]\<close> and has no fallback: on a segment without
  \<^verbatim>\<open>original_text\<close> it raises \<^verbatim>\<open>KeyError\<close> when that key is selected, with the first two
  lines of the block already in the file, and on a segment without \<^verbatim>\<open>text\<close> it raises
  \<^verbatim>\<open>KeyError\<close> when the primary key is selected.
\<close>

theorem C2_save_subtitles_counterexample:
  "demo_segment 0 (3 / 2) ''hi'' ''original_text'' = None \<and>
   fst (save_subtitles demo_env [demo_segment 0 (3 / 2) ''hi''] ''my_video_zh.srt''
          ''original_text'' demo_world) = Inl (KeyError ''original_text'') \<and>
   files (snd (save_subtitles demo_env [demo_segment 0 (3 / 2) ''hi''] ''my_video_zh.srt''
          ''original_text'' demo_world)) ''my_video_zh.srt''
     = Some (''1'' @ nl @ ''00:00:00,000 --> 00:00:01,500'' @ nl) \<and>
   fst (save_subtitles demo_env [[''start'' \<mapsto> Float 0, ''end'' \<mapsto> Float (3 / 2)]]
          ''my_video_en.srt'' ''text'' demo_world) = Inl (KeyError ''text'')"
  by (simp add: run_eval ts_eval)

text \<open>
  C2, amended: the native-caption step of \<^verbatim>\<open>main\<close>, whose selected field is
  \<^verbatim>\<open>original_text\<close>, does not fail on a segment without that field: it emits the primary
  text instead, and the empty string if that is absent too, with leading and trailing
  white space removed in all cases.
\<close>

theorem C2_native_captions_fall_back:
  assumes "\<not> open_fails env filename"
      and "\<forall>seg \<in> set segments. has_times seg \<and> text_if_present ''original_text'' seg \<and>
             text_if_present ''text'' seg"
  shows "save_zh_subtitles env segments filename w =
           (Inr (), w\<lparr>files := (files w)(filename \<mapsto>
                         caption_file (\<lambda>seg. strip (fallback_text seg)) segments),
                       trace := trace w @ [OpenW filename]\<rparr>)"
proof -
  have ok: "\<forall>seg \<in> set segments. has_times seg \<and> zh_text seg = Inr (strip (fallback_text seg))"
    using assms(2) by (simp add: zh_text_ok)
  show ?thesis
    unfolding save_zh_subtitles_def by (rule save_with_ok[OF assms(1) ok])
qed

theorem C2_native_captions_fall_back_witness:
  "\<not> open_fails demo_env ''my_video_zh.srt'' \<and>
   has_times ((demo_segment 0 (3 / 2) ''world'')(''original_text'' \<mapsto> Str '' shijie '')) \<and>
   has_times (demo_segment (3 / 2) 3 '' hi'') \<and>
   has_times [''start'' \<mapsto> Float 3, ''end'' \<mapsto> Float 4] \<and>
   demo_segment (3 / 2) 3 '' hi'' ''original_text'' = None \<and>
   [''start'' \<mapsto> Float 3, ''end'' \<mapsto> Float 4] ''original_text'' = None \<and>
   [''start'' \<mapsto> Float 3, ''end'' \<mapsto> Float (4::real)] ''text'' = None \<and>
   save_zh_subtitles demo_env
       [(demo_segment 0 (3 / 2) ''world'')(''original_text'' \<mapsto> Str '' shijie ''),
        demo_segment (3 / 2) 3 '' hi'',
        [''start'' \<mapsto> Float 3, ''end'' \<mapsto> Float 4]]
       ''my_video_zh.srt'' demo_world =
     (Inr (), demo_world\<lparr>files := (files demo_world)(''my_video_zh.srt'' \<mapsto>
          caption_file (\<lambda>seg. strip (fallback_text seg))
            [(demo_segment 0 (3 / 2) ''world'')(''original_text'' \<mapsto> Str '' shijie ''),
             demo_segment (3 / 2) 3 '' hi'',
             [''start'' \<mapsto> Float 3, ''end'' \<mapsto> Float 4]]),
        trace := trace demo_world @ [OpenW ''my_video_zh.srt'']\<rparr>) \<and>
   caption_file (\<lambda>seg. strip (fallback_text seg))
       [(demo_segment 0 (3 / 2) ''world'')(''original_text'' \<mapsto> Str '' shijie ''),
        demo_segment (3 / 2) 3 '' hi'',
        [''start'' \<mapsto> Float 3, ''end'' \<mapsto> Float 4]] =
     ''1'' @ nl @ ''00:00:00,000 --> 00:00:01,500'' @ nl @ ''shijie'' @ nl @ nl @
     ''2'' @ nl @ ''00:00:01,500 --> 00:00:03,000'' @ nl @ ''hi'' @ nl @ nl @
     ''3'' @ nl @ ''00:00:03,000 --> 00:00:04,000'' @ nl @ nl @ nl"
proof -
  have h1: "\<not> open_fails demo_env ''my_video_zh.srt''" by (simp add: demo_env_def)
  have h2: "\<forall>seg \<in> set [(demo_segment 0 (3 / 2) ''world'')(''original_text'' \<mapsto> Str '' shijie ''),
                  demo_segment (3 / 2) 3 '' hi'',
                  [''start'' \<mapsto> Float 3, ''end'' \<mapsto> Float 4]].
      has_times seg \<and> text_if_present ''original_text'' seg \<and> text_if_present ''text'' seg"
    by (simp add: demo_segment_def has_times_def text_if_present_def)
  have c: "caption_file (\<lambda>seg. strip (fallback_text seg))
       [(demo_segment 0 (3 / 2) ''world'')(''original_text'' \<mapsto> Str '' shijie ''),
        demo_segment (3 / 2) 3 '' hi'',
        [''start'' \<mapsto> Float 3, ''end'' \<mapsto> Float 4]] =
     ''1'' @ nl @ ''00:00:00,000 --> 00:00:01,500'' @ nl @ ''shijie'' @ nl @ nl @
     ''2'' @ nl @ ''00:00:01,500 --> 00:00:03,000'' @ nl @ ''hi'' @ nl @ nl @
     ''3'' @ nl @ ''00:00:03,000 --> 00:00:04,000'' @ nl @ nl @ nl"
    by (simp add: caption_file_def enumerate_eq_zip srt_block_def fallback_text_def run_eval ts_eval)
  have h3: "has_times ((demo_segment 0 (3 / 2) ''world'')(''original_text'' \<mapsto> Str '' shijie ''))"
    "has_times (demo_segment (3 / 2) 3 '' hi'')"
    "has_times [''start'' \<mapsto> Float 3, ''end'' \<mapsto> Float 4]"
    using h2 by simp_all
  have h4: "demo_segment (3 / 2) 3 '' hi'' ''original_text'' = None"
    "[''start'' \<mapsto> Float 3, ''end'' \<mapsto> Float 4] ''original_text'' = None"
    "[''start'' \<mapsto> Float 3, ''end'' \<mapsto> Float (4::real)] ''text'' = None"
    by (simp_all add: demo_segment_def)
  show ?thesis
    using C2_native_captions_fall_back [OF h1 h2, of demo_world] h1 h3 h4 c by blast
qed

subsection \<open>The translation loop (C6)\<close>

text \<open>
  C6, as stated, has the engine called with the segment's text. The loop calls it with
  \<^verbatim>\<open>seg["text"].strip()\<close>: for the text \<^verbatim>\<open>" hi"\<close> the engine receives \<^verbatim>\<open>"hi"\<close>.
\<close>

theorem C6_engine_argument_counterexample:
  "the_str (demo_segment 0 (3 / 2) '' hi'' ''text'') = '' hi'' \<and>
   trace (snd (translate_and_save demo_env [demo_segment 0 (3 / 2) '' hi''] ''en'' ''ru''
                 ''my_video_ru.srt'' demo_world))
     = [Translate ''hi'' ''en'' ''ru'', OpenW ''my_video_ru.srt''] \<and>
   Translate '' hi'' ''en'' ''ru'' \<notin>
     set (trace (snd (translate_and_save demo_env [demo_segment 0 (3 / 2) '' hi''] ''en'' ''ru''
                 ''my_video_ru.srt'' demo_world)))"
  by (simp add: run_eval ts_eval)

text \<open>
  C6, amended: for every segment sequence and target language, \<^verbatim>\<open>translate_and_save\<close>
  calls the translation engine exactly once per segment, in segment order, with that
  segment's text stripped of leading and trailing white space, the source code and the
  target code; the caption file it then writes has one block per segment in the original
  order, with the clocks of each segment's own start and end and the text the engine
  returned.
\<close>

theorem C6_translate_and_save:
  assumes "\<not> open_fails env filename"
      and "\<forall>seg \<in> set segments. has_times seg \<and> has_text ''text'' seg \<and>
             \<not> isl (translation_of env src_lang dst_lang seg)"
  shows "translate_and_save env segments src_lang dst_lang filename w =
     (Inr (), w\<lparr>files := (files w)(filename \<mapsto>
                  caption_file (\<lambda>seg. projr (translation_of env src_lang dst_lang seg)) segments),
                trace := trace w @
                  map (\<lambda>seg. Translate (strip (the_str (seg ''text''))) src_lang dst_lang) segments @
                  [OpenW filename]\<rparr>)"
  by (rule translate_and_save_ok[OF assms])

theorem C6_translate_and_save_witness:
  "\<not> open_fails demo_env ''my_video_ru.srt'' \<and>
   has_times (demo_segment (5 / 4) (17 / 5) '' Hello world'') \<and>
   has_text ''text'' (demo_segment (5 / 4) (17 / 5) '' Hello world'') \<and>
   \<not> isl (translation_of demo_env ''en'' ''ru'' (demo_segment (5 / 4) (17 / 5) '' Hello world'')) \<and>
   has_times (demo_segment (17 / 5) 5 ''Next line'') \<and>
   has_text ''text'' (demo_segment (17 / 5) 5 ''Next line'') \<and>
   \<not> isl (translation_of demo_env ''en'' ''ru'' (demo_segment (17 / 5) 5 ''Next line'')) \<and>
   translate_and_save demo_env
       [demo_segment (5 / 4) (17 / 5) '' Hello world'', demo_segment (17 / 5) 5 ''Next line'']
       ''en'' ''ru'' ''my_video_ru.srt'' demo_world =
     (Inr (), demo_world\<lparr>files := (files demo_world)(''my_video_ru.srt'' \<mapsto>
          caption_file (\<lambda>seg. projr (translation_of demo_env ''en'' ''ru'' seg))
            [demo_segment (5 / 4) (17 / 5) '' Hello world'', demo_segment (17 / 5) 5 ''Next line'']),
        trace := trace demo_world @
          map (\<lambda>seg. Translate (strip (the_str (seg ''text''))) ''en'' ''ru'')
            [demo_segment (5 / 4) (17 / 5) '' Hello world'', demo_segment (17 / 5) 5 ''Next line''] @
          [OpenW ''my_video_ru.srt'']\<rparr>) \<and>
   map (\<lambda>seg. Translate (strip (the_str (seg ''text''))) ''en'' ''ru'')
       [demo_segment (5 / 4) (17 / 5) '' Hello world'', demo_segment (17 / 5) 5 ''Next line''] =
     [Translate ''Hello world'' ''en'' ''ru'', Translate ''Next line'' ''en'' ''ru''] \<and>
   caption_file (\<lambda>seg. projr (translation_of demo_env ''en'' ''ru'' seg))
       [demo_segment (5 / 4) (17 / 5) '' Hello world'', demo_segment (17 / 5) 5 ''Next line''] =
     ''1'' @ nl @ ''00:00:01,250 --> 00:00:03,400'' @ nl @ ''ru:Hello world'' @ nl @ nl @
     ''2'' @ nl @ ''00:00:03,400 --> 00:00:05,000'' @ nl @ ''ru:Next line'' @ nl @ nl"
proof -
  have h1: "\<not> open_fails demo_env ''my_video_ru.srt''" by (simp add: demo_env_def)
  have h2: "\<forall>seg \<in> set [demo_segment (5 / 4) (17 / 5) '' Hello world'', demo_segment (17 / 5) 5 ''Next line''].
      has_times seg \<and> has_text ''text'' seg \<and> \<not> isl (translation_of demo_env ''en'' ''ru'' seg)"
    by (simp add: run_eval)
  have t: "map (\<lambda>seg. Translate (strip (the_str (seg ''text''))) ''en'' ''ru'')
       [demo_segment (5 / 4) (17 / 5) '' Hello world'', demo_segment (17 / 5) 5 ''Next line''] =
     [Translate ''Hello world'' ''en'' ''ru'', Translate ''Next line'' ''en'' ''ru'']"
    by (simp add: run_eval)
  have c: "caption_file (\<lambda>seg. projr (translation_of demo_env ''en'' ''ru'' seg))
       [demo_segment (5 / 4) (17 / 5) '' Hello world'', demo_segment (17 / 5) 5 ''Next line''] =
     ''1'' @ nl @ ''00:00:01,250 --> 00:00:03,400'' @ nl @ ''ru:Hello world'' @ nl @ nl @
     ''2'' @ nl @ ''00:00:03,400 --> 00:00:05,000'' @ nl @ ''ru:Next line'' @ nl @ nl"
    by (simp add: caption_file_def enumerate_eq_zip srt_block_def run_eval ts_eval)
  have h3: "has_times (demo_segment (5 / 4) (17 / 5) '' Hello world'')"
    "has_text ''text'' (demo_segment (5 / 4) (17 / 5) '' Hello world'')"
    "\<not> isl (translation_of demo_env ''en'' ''ru'' (demo_segment (5 / 4) (17 / 5) '' Hello world''))"
    "has_times (demo_segment (17 / 5) 5 ''Next line'')"
    "has_text ''text'' (demo_segment (17 / 5) 5 ''Next line'')"
    "\<not> isl (translation_of demo_env ''en'' ''ru'' (demo_segment (17 / 5) 5 ''Next line''))"
    using h2 by simp_all
  show ?thesis
    using C6_translate_and_save [OF h1 h2, of demo_world] h1 h3 t c by blast
qed

subsection \<open>The stage gate of download and extraction (C7)\<close>

text \<open>
  C7: if the video file already exists, \<^verbatim>\<open>download_video\<close> returns without running the
  downloader and leaves the world as it was, files and trace of tool runs alike; the same
  holds of \<^verbatim>\<open>extract_audio\<close> and the audio file. In particular a second call of a stage,
  made when its file exists after the first, runs no tool.
\<close>

theorem C7_stage_gate:
  "(path_exists w (VIDEO_NAME (PROJECT_NAME cfg)) \<longrightarrow> download_video cfg env w = (Inr (), w)) \<and>
   (path_exists w (AUDIO_NAME (PROJECT_NAME cfg)) \<longrightarrow> extract_audio cfg env w = (Inr (), w)) \<and>
   (path_exists (snd (download_video cfg env w)) (VIDEO_NAME (PROJECT_NAME cfg)) \<longrightarrow>
      download_video cfg env (snd (download_video cfg env w)) =
        (Inr (), snd (download_video cfg env w))) \<and>
   (path_exists (snd (extract_audio cfg env w)) (AUDIO_NAME (PROJECT_NAME cfg)) \<longrightarrow>
      extract_audio cfg env (snd (extract_audio cfg env w)) =
        (Inr (), snd (extract_audio cfg env w)))"
  by (simp add: download_video_def extract_audio_def)

theorem C7_stage_gate_witness:
  "path_exists (demo_world\<lparr>files := [''my_video.mp4'' \<mapsto> ''v'', ''my_video_audio.wav'' \<mapsto> ''a'']\<rparr>)
     (VIDEO_NAME (PROJECT_NAME demo_config)) \<and>
   download_video demo_config demo_env
       (demo_world\<lparr>files := [''my_video.mp4'' \<mapsto> ''v'', ''my_video_audio.wav'' \<mapsto> ''a'']\<rparr>) =
     (Inr (), demo_world\<lparr>files := [''my_video.mp4'' \<mapsto> ''v'', ''my_video_audio.wav'' \<mapsto> ''a'']\<rparr>) \<and>
   path_exists (demo_world\<lparr>files := [''my_video.mp4'' \<mapsto> ''v'', ''my_video_audio.wav'' \<mapsto> ''a'']\<rparr>)
     (AUDIO_NAME (PROJECT_NAME demo_config)) \<and>
   extract_audio demo_config demo_env
       (demo_world\<lparr>files := [''my_video.mp4'' \<mapsto> ''v'', ''my_video_audio.wav'' \<mapsto> ''a'']\<rparr>) =
     (Inr (), demo_world\<lparr>files := [''my_video.mp4'' \<mapsto> ''v'', ''my_video_audio.wav'' \<mapsto> ''a'']\<rparr>) \<and>
   trace (snd (download_video demo_config demo_env demo_world)) =
     [Run [''yt-dlp'', ''https://example.com/path/to/video/playlist.m3u8'', ''-o'', ''my_video.mp4'',
           ''--no-check-certificate'']] \<and>
   path_exists (snd (download_video demo_config demo_env demo_world))
     (VIDEO_NAME (PROJECT_NAME demo_config)) \<and>
   download_video demo_config demo_env (snd (download_video demo_config demo_env demo_world)) =
     (Inr (), snd (download_video demo_config demo_env demo_world)) \<and>
   path_exists (snd (extract_audio demo_config demo_env demo_world))
     (AUDIO_NAME (PROJECT_NAME demo_config)) \<and>
   extract_audio demo_config demo_env (snd (extract_audio demo_config demo_env demo_world)) =
     (Inr (), snd (extract_audio demo_config demo_env demo_world))"
proof -
  have e1: "path_exists (demo_world\<lparr>files := [''my_video.mp4'' \<mapsto> ''v'', ''my_video_audio.wav'' \<mapsto> ''a'']\<rparr>)
     (VIDEO_NAME (PROJECT_NAME demo_config))"
    by (simp add: path_exists_def VIDEO_NAME_def demo_config_def)
  have e2: "path_exists (demo_world\<lparr>files := [''my_video.mp4'' \<mapsto> ''v'', ''my_video_audio.wav'' \<mapsto> ''a'']\<rparr>)
     (AUDIO_NAME (PROJECT_NAME demo_config))"
    by (simp add: path_exists_def AUDIO_NAME_def demo_config_def)
  have t: "trace (snd (download_video demo_config demo_env demo_world)) =
     [Run [''yt-dlp'', ''https://example.com/path/to/video/playlist.m3u8'', ''-o'', ''my_video.mp4'',
           ''--no-check-certificate'']]"
    by (simp add: run_eval)
  have e3: "path_exists (snd (download_video demo_config demo_env demo_world))
     (VIDEO_NAME (PROJECT_NAME demo_config))"
    by (simp add: run_eval)
  have e4: "path_exists (snd (extract_audio demo_config demo_env demo_world))
     (AUDIO_NAME (PROJECT_NAME demo_config))"
    by (simp add: run_eval)
  show ?thesis
    using C7_stage_gate [of "demo_world\<lparr>files := [''my_video.mp4'' \<mapsto> ''v'', ''my_video_audio.wav'' \<mapsto> ''a'']\<rparr>"
        demo_config demo_env]
      C7_stage_gate [of demo_world demo_config demo_env] e1 e2 e3 e4 t
    by blast
qed

subsection \<open>A failing recognition stage (C8)\<close>

text \<open>
  C8: in every run that reaches the recognition stage and has it fail, \<^verbatim>\<open>main\<close> ends with
  that failure; the files are those the download and extraction stages left, so no
  caption file of any kind is produced, and no file is opened for writing, so no
  caption-writing stage is entered.
\<close>

theorem C8_recognition_failure:
  assumes "download_video cfg env w0 = (Inr (), w1)"
      and "(if SAVE_AUDIO cfg then extract_audio cfg env w1 else (Inr (), w1)) = (Inr (), w2)"
      and "whisper_transcribe env (MODEL cfg) (AUDIO_NAME (PROJECT_NAME cfg)) (files w2) = Inl e"
  shows "fst (main cfg env w0) = Inl e \<and>
         files (snd (main cfg env w0)) = files w2 \<and>
         trace (snd (main cfg env w0)) =
           trace w2 @ [Transcribe (MODEL cfg) (AUDIO_NAME (PROJECT_NAME cfg))] \<and>
         filter is_open_w (trace (snd (main cfg env w0))) = filter is_open_w (trace w0)"
  using pre_recognition_trace[OF assms(1) assms(2)]
  by (simp add: main_recognition_failure[OF assms])

theorem C8_recognition_failure_witness:
  "download_video demo_config demo_env demo_world =
     (Inr (), snd (download_video demo_config demo_env demo_world)) \<and>
   (if SAVE_AUDIO demo_config
    then extract_audio demo_config demo_env (snd (download_video demo_config demo_env demo_world))
    else (Inr (), snd (download_video demo_config demo_env demo_world))) =
     (Inr (), snd (extract_audio demo_config demo_env
                     (snd (download_video demo_config demo_env demo_world)))) \<and>
   whisper_transcribe demo_env (MODEL demo_config) (AUDIO_NAME (PROJECT_NAME demo_config))
       (files (snd (extract_audio demo_config demo_env
                     (snd (download_video demo_config demo_env demo_world))))) =
     Inl (Raised ''RuntimeError'') \<and>
   fst (main demo_config demo_env demo_world) = Inl (Raised ''RuntimeError'') \<and>
   files (snd (main demo_config demo_env demo_world)) =
     files (snd (extract_audio demo_config demo_env
                   (snd (download_video demo_config demo_env demo_world)))) \<and>
   filter is_open_w (trace (snd (main demo_config demo_env demo_world))) =
     filter is_open_w (trace demo_world)"
proof -
  have d: "download_video demo_config demo_env demo_world =
     (Inr (), snd (download_video demo_config demo_env demo_world))"
    by (simp add: run_eval)
  have x: "(if SAVE_AUDIO demo_config
    then extract_audio demo_config demo_env (snd (download_video demo_config demo_env demo_world))
    else (Inr (), snd (download_video demo_config demo_env demo_world))) =
     (Inr (), snd (extract_audio demo_config demo_env
                     (snd (download_video demo_config demo_env demo_world))))"
    by (simp add: run_eval)
  have r: "whisper_transcribe demo_env (MODEL demo_config) (AUDIO_NAME (PROJECT_NAME demo_config))
       (files (snd (extract_audio demo_config demo_env
                     (snd (download_video demo_config demo_env demo_world))))) =
     Inl (Raised ''RuntimeError'')"
    by (simp add: demo_env_def)
  show ?thesis
    using C8_recognition_failure [OF d x r] d x r by blast
qed

subsection \<open>A failing translation (C10)\<close>

text \<open>
  C10: \<^verbatim>\<open>translate_and_save\<close> builds all blocks first and opens the output file only
  after the loop over the segments has ended. Hence, if the translation engine fails on
  any segment, the loop fails, \<^verbatim>\<open>translate_and_save\<close> fails, no file is opened for
  writing, and every file, the caption file of that language among them, is as it was
  before the call.
\<close>

theorem C10_translation_failure_leaves_files:
  assumes "\<exists>seg \<in> set segments. has_text ''text'' seg \<and> isl (translation_of env src_lang dst_lang seg)"
  shows "isl (fst (translate_loop env src_lang dst_lang 0 segments [] w)) \<and>
         isl (fst (translate_and_save env segments src_lang dst_lang filename w)) \<and>
         files (snd (translate_and_save env segments src_lang dst_lang filename w)) = files w \<and>
         filter is_open_w (trace (snd (translate_and_save env segments src_lang dst_lang filename w))) =
           filter is_open_w (trace w)"
  using translate_loop_fails[OF assms, of 0 "[]" w]
    translate_and_save_fails[of env src_lang dst_lang segments w filename]
  by blast

theorem C10_translation_failure_leaves_files_witness:
  "(\<exists>seg \<in> set [demo_segment 0 (3 / 2) ''hi'', demo_segment (3 / 2) 3 ''  ''].
      has_text ''text'' seg \<and> isl (translation_of demo_env ''en'' ''ru'' seg)) \<and>
   isl (fst (translate_and_save demo_env [demo_segment 0 (3 / 2) ''hi'', demo_segment (3 / 2) 3 ''  '']
               ''en'' ''ru'' ''my_video_ru.srt''
               (demo_world\<lparr>files := [''my_video_ru.srt'' \<mapsto> ''old'']\<rparr>))) \<and>
   files (snd (translate_and_save demo_env [demo_segment 0 (3 / 2) ''hi'', demo_segment (3 / 2) 3 ''  '']
               ''en'' ''ru'' ''my_video_ru.srt''
               (demo_world\<lparr>files := [''my_video_ru.srt'' \<mapsto> ''old'']\<rparr>))) =
     files (demo_world\<lparr>files := [''my_video_ru.srt'' \<mapsto> ''old'']\<rparr>) \<and>
   filter is_open_w
     (trace (snd (translate_and_save demo_env [demo_segment 0 (3 / 2) ''hi'', demo_segment (3 / 2) 3 ''  '']
               ''en'' ''ru'' ''my_video_ru.srt''
               (demo_world\<lparr>files := [''my_video_ru.srt'' \<mapsto> ''old'']\<rparr>)))) =
     filter is_open_w (trace (demo_world\<lparr>files := [''my_video_ru.srt'' \<mapsto> ''old'']\<rparr>))"
proof -
  have h: "\<exists>seg \<in> set [demo_segment 0 (3 / 2) ''hi'', demo_segment (3 / 2) 3 ''  ''].
      has_text ''text'' seg \<and> isl (translation_of demo_env ''en'' ''ru'' seg)"
    by (simp add: run_eval)
  show ?thesis
    using C10_translation_failure_leaves_files [OF h, of "demo_world\<lparr>files := [''my_video_ru.srt'' \<mapsto> ''old'']\<rparr>"
        "''my_video_ru.srt''"] h
    by blast
qed

end
